theory Spec2Isabelle
  imports Main "HOL-Library.Word" "HOL-Library.Char_ord" "HOL-Library.List_Lexorder" "HOL-Library.AList"
begin

unbundle bit_operations_syntax

section \<open>Bytes, digests and number rendering\<close>

text \<open>
  The stag service fingerprints spatial events with \<^verbatim>\<open>crypto/md5\<close>, writes numbers
  into the digest with \<^verbatim>\<open>binary.Write(..., binary.LittleEndian, ...)\<close> and renders
  identifiers with \<^verbatim>\<open>fmt.Sprintf\<close>. This section fixes those library functions:
  a byte is an 8-bit word, a \<^verbatim>\<open>float64\<close> is its IEEE-754 binary64 bit pattern (the
  value that \<^verbatim>\<open>binary.Write\<close> serialises), and MD5 follows RFC 1321.
\<close>

type_synonym byte = "8 word"
type_synonym u32 = "32 word"
type_synonym float64 = "64 word"

definition le_bytes :: "nat \<Rightarrow> 'a::len word \<Rightarrow> byte list" where
  "le_bytes n w = map (\<lambda>i. ucast (drop_bit (8 * i) w)) [0..<n]"

definition str_bytes :: "string \<Rightarrow> byte list" where
  "str_bytes s = map (\<lambda>c. of_char c) s"

subsection \<open>MD5 (RFC 1321), as computed by \<^verbatim>\<open>crypto/md5\<close>\<close>

type_synonym md5_state = "u32 \<times> u32 \<times> u32 \<times> u32"

definition md5_K :: "u32 list" where
  "md5_K =
    [0xd76aa478, 0xe8c7b756, 0x242070db, 0xc1bdceee, 0xf57c0faf, 0x4787c62a, 0xa8304613, 0xfd469501,
     0x698098d8, 0x8b44f7af, 0xffff5bb1, 0x895cd7be, 0x6b901122, 0xfd987193, 0xa679438e, 0x49b40821,
     0xf61e2562, 0xc040b340, 0x265e5a51, 0xe9b6c7aa, 0xd62f105d, 0x02441453, 0xd8a1e681, 0xe7d3fbc8,
     0x21e1cde6, 0xc33707d6, 0xf4d50d87, 0x455a14ed, 0xa9e3e905, 0xfcefa3f8, 0x676f02d9, 0x8d2a4c8a,
     0xfffa3942, 0x8771f681, 0x6d9d6122, 0xfde5380c, 0xa4beea44, 0x4bdecfa9, 0xf6bb4b60, 0xbebfbc70,
     0x289b7ec6, 0xeaa127fa, 0xd4ef3085, 0x04881d05, 0xd9d4d039, 0xe6db99e5, 0x1fa27cf8, 0xc4ac5665,
     0xf4292244, 0x432aff97, 0xab9423a7, 0xfc93a039, 0x655b59c3, 0x8f0ccc92, 0xffeff47d, 0x85845dd1,
     0x6fa87e4f, 0xfe2ce6e0, 0xa3014314, 0x4e0811a1, 0xf7537e82, 0xbd3af235, 0x2ad7d2bb, 0xeb86d391]"

definition md5_s :: "nat list" where
  "md5_s =
    [7, 12, 17, 22, 7, 12, 17, 22, 7, 12, 17, 22, 7, 12, 17, 22,
     5, 9, 14, 20, 5, 9, 14, 20, 5, 9, 14, 20, 5, 9, 14, 20,
     4, 11, 16, 23, 4, 11, 16, 23, 4, 11, 16, 23, 4, 11, 16, 23,
     6, 10, 15, 21, 6, 10, 15, 21, 6, 10, 15, 21, 6, 10, 15, 21]"

definition rotl32 :: "nat \<Rightarrow> u32 \<Rightarrow> u32" where
  "rotl32 n x = push_bit n x OR drop_bit (32 - n) x"

definition md5_F :: "nat \<Rightarrow> u32 \<Rightarrow> u32 \<Rightarrow> u32 \<Rightarrow> u32" where
  "md5_F i b c d =
     (if i < 16 then (b AND c) OR (NOT b AND d)
      else if i < 32 then (d AND b) OR (NOT d AND c)
      else if i < 48 then b XOR c XOR d
      else c XOR (b OR NOT d))"

definition md5_g :: "nat \<Rightarrow> nat" where
  "md5_g i =
     (if i < 16 then i
      else if i < 32 then (5 * i + 1) mod 16
      else if i < 48 then (3 * i + 5) mod 16
      else (7 * i) mod 16)"

fun md5_step :: "u32 list \<Rightarrow> nat \<Rightarrow> md5_state \<Rightarrow> md5_state" where
  "md5_step M i (a, b, c, d) =
     (let f = md5_F i b c d + a + md5_K ! i + M ! md5_g i
      in (d, b + rotl32 (md5_s ! i) f, b, c))"

fun le_word32 :: "byte list \<Rightarrow> u32" where
  "le_word32 [] = 0"
| "le_word32 (x # xs) = ucast x OR push_bit 8 (le_word32 xs)"

fun md5_words :: "nat \<Rightarrow> byte list \<Rightarrow> u32 list" where
  "md5_words 0 bs = []"
| "md5_words (Suc n) bs = le_word32 (take 4 bs) # md5_words n (drop 4 bs)"

fun md5_block :: "md5_state \<Rightarrow> byte list \<Rightarrow> md5_state" where
  "md5_block (a0, b0, c0, d0) chunk =
     (case fold (md5_step (md5_words 16 chunk)) [0..<64] (a0, b0, c0, d0) of
        (a, b, c, d) \<Rightarrow> (a0 + a, b0 + b, c0 + c, d0 + d))"

function md5_blocks :: "md5_state \<Rightarrow> byte list \<Rightarrow> md5_state" where
  "md5_blocks st bs =
     (if length bs < 64 then st else md5_blocks (md5_block st (take 64 bs)) (drop 64 bs))"
  by pat_completeness auto
termination
  by (relation "measure (\<lambda>(st, bs). length bs)") auto

declare md5_blocks.simps [simp del]

definition md5_pad :: "byte list \<Rightarrow> byte list" where
  "md5_pad msg =
     msg @ [0x80] @ replicate ((55 + 64 - length msg mod 64) mod 64) 0
         @ le_bytes 8 (word_of_nat (8 * length msg) :: 64 word)"

definition md5_final :: "byte list \<Rightarrow> md5_state" where
  "md5_final msg = md5_blocks (0x67452301, 0xefcdab89, 0x98badcfe, 0x10325476) (md5_pad msg)"

definition md5_digest :: "md5_state \<Rightarrow> byte list" where
  "md5_digest st =
     (case st of (a, b, c, d) \<Rightarrow> le_bytes 4 a @ le_bytes 4 b @ le_bytes 4 c @ le_bytes 4 d)"

definition md5 :: "byte list \<Rightarrow> byte list" where
  "md5 msg = md5_digest (md5_final msg)"

subsection \<open>\<^verbatim>\<open>fmt.Sprintf\<close> verbs used by the service\<close>

definition hex_digit :: "nat \<Rightarrow> char" where
  "hex_digit n = ''0123456789abcdef'' ! n"

text \<open>\<^verbatim>\<open>%x\<close> on a byte slice: two lower-case hexadecimal digits per byte.\<close>

definition hex :: "byte list \<Rightarrow> string" where
  "hex bs = concat (map (\<lambda>b. [hex_digit (unat b div 16), hex_digit (unat b mod 16)]) bs)"

definition dec_digit :: "nat \<Rightarrow> char" where
  "dec_digit n = ''0123456789'' ! n"

fun show_nat :: "nat \<Rightarrow> string" where
  "show_nat n = (if n < 10 then [dec_digit n] else show_nat (n div 10) @ [dec_digit (n mod 10)])"

declare show_nat.simps [simp del]

text \<open>\<^verbatim>\<open>%d\<close> on a signed integer.\<close>

definition show_int :: "int \<Rightarrow> string" where
  "show_int i = (if i < 0 then CHR ''-'' # show_nat (nat (- i)) else show_nat (nat i))"

subsection \<open>IEEE-754 binary64 arithmetic used by the geometry signature\<close>

text \<open>
  A decoded \<^verbatim>\<open>float64\<close>: not-a-number, an infinity with its sign, or a finite value
  kept as sign, mantissa \<open>m\<close> and exponent \<open>e\<close> (the value is \<open>m\<close> times two to the
  power \<open>e\<close>, negated when the sign is set; a zero has mantissa 0 and any exponent), so
  that negative zero stays distinct from positive zero. Results of subtraction and multiplication are rounded to the nearest
  binary64 value, ties to even.
\<close>

datatype fval = FNaN | FInf bool | FFin bool nat int

definition f64_decode :: "float64 \<Rightarrow> fval" where
  "f64_decode w =
     (let neg = bit w 63;
          e = unat (drop_bit 52 w AND 0x7FF);
          m = unat (w AND 0xFFFFFFFFFFFFF)
      in if e = 2047 then (if m = 0 then FInf neg else FNaN)
         else if e = 0 then (if m = 0 then FFin neg 0 0 else FFin neg m (- 1074))
         else FFin neg (2 ^ 52 + m) (int e - 1075))"

fun bitlen_nat :: "nat \<Rightarrow> nat" where
  "bitlen_nat n = (if n = 0 then 0 else Suc (bitlen_nat (n div 2)))"

declare bitlen_nat.simps [simp del]

text \<open>Division of \<open>m\<close> by \<open>2 ^ k\<close>, rounded to the nearest integer, ties to even.\<close>

definition shr_round_even :: "nat \<Rightarrow> nat \<Rightarrow> nat" where
  "shr_round_even m k =
     (let q = m div 2 ^ k; r = m mod 2 ^ k
      in if 2 * r < 2 ^ k then q
         else if 2 * r > 2 ^ k then q + 1
         else if even q then q else q + 1)"

text \<open>Rounding of the exact value \<open>m * 2 ^ e\<close> to binary64.\<close>

definition f64_round :: "bool \<Rightarrow> nat \<Rightarrow> int \<Rightarrow> fval" where
  "f64_round neg m e =
     (if m = 0 then FFin neg 0 0
      else
        let ue = max (int (bitlen_nat m) - 1 + e) (- 1022) - 52;
            m' = (if ue \<le> e then m * 2 ^ nat (e - ue) else shr_round_even m (nat (ue - e)))
        in if int (bitlen_nat m') + ue > 1024 then FInf neg else FFin neg m' ue)"

text \<open>The signed integer \<open>m * 2 ^ (e - e0)\<close>, for a common exponent \<open>e0 \<le> e\<close>.\<close>

definition f64_scaled :: "int \<Rightarrow> bool \<Rightarrow> nat \<Rightarrow> int \<Rightarrow> int" where
  "f64_scaled e0 neg m e = (if neg then - 1 else 1) * int m * 2 ^ nat (e - e0)"

fun f64_sub :: "fval \<Rightarrow> fval \<Rightarrow> fval" where
  "f64_sub FNaN y = FNaN"
| "f64_sub x FNaN = FNaN"
| "f64_sub (FInf s) (FInf t) = (if s = t then FNaN else FInf s)"
| "f64_sub (FInf s) (FFin t m e) = FInf s"
| "f64_sub (FFin s m e) (FInf t) = FInf (\<not> t)"
| "f64_sub (FFin s1 m1 e1) (FFin s2 m2 e2) =
     (let e0 = min e1 e2;
          v = f64_scaled e0 s1 m1 e1 - f64_scaled e0 s2 m2 e2
      in if v = 0 then FFin (s1 \<and> \<not> s2) 0 0
         else f64_round (v < 0) (nat \<bar>v\<bar>) e0)"

fun f64_mul :: "fval \<Rightarrow> fval \<Rightarrow> fval" where
  "f64_mul FNaN y = FNaN"
| "f64_mul x FNaN = FNaN"
| "f64_mul (FInf s) (FInf t) = FInf (s \<noteq> t)"
| "f64_mul (FInf s) (FFin t m e) = (if m = 0 then FNaN else FInf (s \<noteq> t))"
| "f64_mul (FFin s m e) (FInf t) = (if m = 0 then FNaN else FInf (s \<noteq> t))"
| "f64_mul (FFin s1 m1 e1) (FFin s2 m2 e2) = f64_round (s1 \<noteq> s2) (m1 * m2) (e1 + e2)"

text \<open>The comparison \<^verbatim>\<open>x < y\<close> of Go (false whenever an operand is NaN).\<close>

fun f64_less :: "fval \<Rightarrow> fval \<Rightarrow> bool" where
  "f64_less FNaN y = False"
| "f64_less x FNaN = False"
| "f64_less (FInf s) (FInf t) = (s \<and> \<not> t)"
| "f64_less (FInf s) (FFin t m e) = s"
| "f64_less (FFin s m e) (FInf t) = (\<not> t)"
| "f64_less (FFin s1 m1 e1) (FFin s2 m2 e2) =
     (let e0 = min e1 e2 in f64_scaled e0 s1 m1 e1 < f64_scaled e0 s2 m2 e2)"

fun f64_is_zero :: "fval \<Rightarrow> bool" where
  "f64_is_zero (FFin s m e) = (m = 0)"
| "f64_is_zero x = False"

fun f64_signbit :: "fval \<Rightarrow> bool" where
  "f64_signbit (FFin s m e) = s"
| "f64_signbit (FInf s) = s"
| "f64_signbit FNaN = False"

text \<open>\<^verbatim>\<open>math.Min\<close> and \<^verbatim>\<open>math.Max\<close> with their special cases.\<close>

definition math_Min :: "fval \<Rightarrow> fval \<Rightarrow> fval" where
  "math_Min x y =
     (if x = FInf True \<or> y = FInf True then FInf True
      else if x = FNaN \<or> y = FNaN then FNaN
      else if f64_is_zero x \<and> f64_is_zero y then (if f64_signbit x then x else y)
      else if f64_less x y then x else y)"

definition math_Max :: "fval \<Rightarrow> fval \<Rightarrow> fval" where
  "math_Max x y =
     (if x = FInf False \<or> y = FInf False then FInf False
      else if x = FNaN \<or> y = FNaN then FNaN
      else if f64_is_zero x \<and> f64_is_zero y then (if f64_signbit x then y else x)
      else if f64_less y x then x else y)"

text \<open>\<^verbatim>\<open>%.3f\<close>: the exact value rounded to three decimals, ties to even.\<close>

definition pad3 :: "nat \<Rightarrow> string" where
  "pad3 n = [dec_digit (n div 100 mod 10), dec_digit (n div 10 mod 10), dec_digit (n mod 10)]"

fun fmt_f3 :: "fval \<Rightarrow> string" where
  "fmt_f3 FNaN = ''NaN''"
| "fmt_f3 (FInf s) = (if s then ''-Inf'' else ''+Inf'')"
| "fmt_f3 (FFin s m e) =
     (let n = (if 0 \<le> e then m * 1000 * 2 ^ nat e else shr_round_even (m * 1000) (nat (- e)))
      in (if s then ''-'' else []) @ show_nat (n div 1000) @ ''.'' @ pad3 (n mod 1000))"

section \<open>Data model (\<^verbatim>\<open>internal/storage/types.go\<close>)\<close>

text \<open>
  Structs are records; a nil-able pointer field is an \<open>option\<close>; a Go slice or
  fixed-size array is a list; \<^verbatim>\<open>map[string]interface{}\<close> is an association list of
  JSON values. \<^verbatim>\<open>time.Time\<close> is the wall-clock instant in nanoseconds since the Unix
  epoch. Field names carry a prefix naming their struct, since several structs share
  field names.
\<close>

type_synonym Time = int

definition zero_Time :: Time where
  "zero_Time = - 62135596800000000000"

definition Unix :: "Time \<Rightarrow> int" where
  "Unix t = t div 1000000000"

datatype jvalue =
    JNull
  | JBool bool
  | JNumber float64
  | JString string
  | JArray "jvalue list"
  | JObject "(string \<times> jvalue) list"

type_synonym metadata = "(string \<times> jvalue) list"

record Transform =
  Translation :: "float64 list"
  Rotation :: "float64 list"
  Scale :: "float64 list"

record MeshData =
  mesh_AnchorID :: string
  mesh_Vertices :: "float64 list"
  mesh_Faces :: "u32 list"
  mesh_Normals :: "float64 list"
  mesh_Colors :: "float64 list"
  mesh_TextureCoords :: "float64 list"
  mesh_Transform :: "Transform option"
  mesh_Classification :: string
  mesh_Confidence :: float64

record PoseData =
  pose_Transform :: "Transform option"
  pose_Velocity :: "float64 list"
  pose_Acceleration :: "float64 list"
  pose_AngularVelocity :: "float64 list"
  pose_Confidence :: float64

record CameraData =
  cam_ImageData :: "byte list"
  cam_Width :: int
  cam_Height :: int
  cam_Format :: string
  cam_Intrinsics :: "float64 list"
  cam_Distortion :: "float64 list"
  cam_Transform :: "Transform option"
  cam_Timestamp :: Time
  cam_Exposure :: float64
  cam_ISO :: int
  cam_FocalLength :: float64

record DepthData =
  depth_Data :: "float64 list"
  depth_Width :: int
  depth_Height :: int
  depth_Confidence :: "float64 list"
  depth_Transform :: "Transform option"
  depth_MinRange :: float64
  depth_MaxRange :: float64
  depth_Timestamp :: Time

record PointCloudData =
  pc_Points :: "float64 list"
  pc_Colors :: "float64 list"
  pc_Normals :: "float64 list"
  pc_Confidence :: "float64 list"
  pc_Transform :: "Transform option"
  pc_Timestamp :: Time

record LightingData =
  light_AmbientIntensity :: float64
  light_DirectionalLight :: "float64 list"
  light_SphericalHarmonics :: "float64 list"
  light_ColorTemperature :: float64
  light_Transform :: "Transform option"
  light_Timestamp :: Time

text \<open>
  \<^verbatim>\<open>SpatialEvent\<close>. Its \<^verbatim>\<open>ProcessingInfo\<close> is stamped by the HTTP handler and never read
  by the versioning code, so it is left out.
\<close>

record SpatialEvent =
  ev_EventID :: string
  ev_EventType :: string
  ev_Timestamp :: Time
  ev_ServerTime :: Time
  ev_SessionID :: string
  ev_ClientID :: string
  ev_DeviceID :: string
  ev_FrameNumber :: "64 word"
  ev_Transform :: "Transform option"
  ev_PoseData :: "PoseData option"
  ev_MeshData :: "MeshData option"
  ev_CameraData :: "CameraData option"
  ev_DepthData :: "DepthData option"
  ev_PointCloudData :: "PointCloudData option"
  ev_LightingData :: "LightingData option"
  ev_Metadata :: metadata

record AnchorVersion =
  ver_VersionID :: string
  ver_Hash :: string
  ver_Timestamp :: Time
  ver_ChangeType :: string
  ver_Transform :: "Transform option"
  ver_MeshData :: "MeshData option"
  ver_PoseData :: "PoseData option"
  ver_CameraData :: "CameraData option"
  ver_DepthData :: "DepthData option"
  ver_PointCloudData :: "PointCloudData option"
  ver_LightingData :: "LightingData option"
  ver_EventID :: string
  ver_SessionID :: string
  ver_ClientID :: string
  ver_DeviceID :: string
  ver_FrameNumber :: "64 word"
  ver_Metadata :: metadata

record Anchor =
  anc_ID :: string
  anc_StagID :: string
  anc_CurrentHash :: string
  anc_Versions :: "AnchorVersion list"
  anc_CreatedAt :: Time
  anc_UpdatedAt :: Time
  anc_LastSessionID :: string
  anc_LastClientID :: string
  anc_LastDeviceID :: string
  anc_Metadata :: metadata

record StagStats =
  AnchorCount :: int
  VersionCount :: int
  EventCount :: int
  SessionCount :: int
  ClientCount :: int
  DeviceCount :: int
  LastActivity :: Time
  FirstActivity :: Time
  DataSize :: int

record Stag =
  stag_ID :: string
  stag_Name :: string
  stag_Description :: string
  stag_CreatedAt :: Time
  stag_UpdatedAt :: Time
  stag_Anchors :: "(string \<times> Anchor) list"
  stag_Stats :: StagStats
  stag_Metadata :: metadata

record AnchorHistory =
  hist_AnchorID :: string
  hist_StagID :: string
  hist_Versions :: "AnchorVersion list"
  hist_Total :: int
  hist_Offset :: int
  hist_Limit :: int

section \<open>The store (\<^verbatim>\<open>BoltStorage\<close>)\<close>

subsection \<open>Buckets of the embedded key/value engine\<close>

text \<open>
  A bbolt bucket is an ordered map from byte-string keys to values: a list of entries,
  kept in ascending bytewise key order by \<open>bucket_insert\<close>. The stored value is the
  JSON encoding of a struct; the model stores the struct itself (encoding followed by
  decoding gives the struct back). A cursor positioned by \<^verbatim>\<open>Seek\<close> stands at the first
  key not below the sought one.
\<close>

type_synonym error = string
type_synonym 'v bucket = "(string \<times> 'v) list"

definition bucket_Get :: "'v bucket \<Rightarrow> string \<Rightarrow> 'v option" where
  "bucket_Get b k = map_of b k"

fun bucket_insert :: "'v bucket \<Rightarrow> string \<Rightarrow> 'v \<Rightarrow> 'v bucket" where
  "bucket_insert [] k v = [(k, v)]"
| "bucket_insert ((k', v') # b) k v =
     (if k = k' then (k, v) # b
      else if k < k' then (k, v) # (k', v') # b
      else (k', v') # bucket_insert b k v)"

text \<open>\<^verbatim>\<open>Bucket.Put\<close> rejects an empty key and a key above \<^verbatim>\<open>MaxKeySize\<close>.\<close>

definition bucket_Put :: "'v bucket \<Rightarrow> string \<Rightarrow> 'v \<Rightarrow> error + 'v bucket" where
  "bucket_Put b k v =
     (if k = [] then Inl ''key required''
      else if length k > 32768 then Inl ''key too large''
      else Inr (bucket_insert b k v))"

definition bucket_Delete :: "'v bucket \<Rightarrow> string \<Rightarrow> 'v bucket" where
  "bucket_Delete b k = filter (\<lambda>(k', v). k' \<noteq> k) b"

text \<open>
  The loop \<^verbatim>\<open>for k, v := c.Seek(prefix); k != nil && len(k) > len(prefix) &&
  string(k[:len(prefix)]) == string(prefix); k, v = c.Next()\<close>: the entries it visits.
\<close>

definition has_prefix :: "string \<Rightarrow> string \<Rightarrow> bool" where
  "has_prefix prefix k = (length k > length prefix \<and> take (length prefix) k = prefix)"

definition cursor_scan :: "'v bucket \<Rightarrow> string \<Rightarrow> (string \<times> 'v) list" where
  "cursor_scan b prefix =
     takeWhile (\<lambda>(k, v). has_prefix prefix k) (dropWhile (\<lambda>(k, v). k < prefix) b)"

record Store =
  StagsBucket :: "Stag bucket"
  AnchorsBucket :: "Anchor bucket"
  VersionsBucket :: "AnchorVersion bucket"

definition empty_Store :: Store where
  "empty_Store = \<lparr>StagsBucket = [], AnchorsBucket = [], VersionsBucket = []\<rparr>"

subsection \<open>Write transactions and the environment\<close>

text \<open>
  Every storage method that writes runs its body in one \<^verbatim>\<open>db.Update\<close> transaction of its
  own. A transaction whose body returns an error, or whose commit fails, leaves the
  store as it was. Which commits fail (disk errors, oversized values) is not decided by
  the program: it is an input, \<open>io_fails\<close>, next to the clock reading \<open>now\<close>.
\<close>

datatype StoreOp =
    OpCreateStag | OpUpdateStag | OpUpdateStagStats | OpDeleteStag
  | OpCreateAnchor | OpUpdateAnchor | OpDeleteAnchor | OpAddAnchorVersion

record Env =
  now :: Time
  io_fails :: "StoreOp list"

definition db_Update :: "Env \<Rightarrow> StoreOp \<Rightarrow> error + 'a \<Rightarrow> error + 'a" where
  "db_Update env op body =
     (case body of
        Inl e \<Rightarrow> Inl e
      | Inr r \<Rightarrow> if op \<in> set (io_fails env) then Inl ''commit failed'' else Inr r)"

subsection \<open>Version operations\<close>

definition version_key :: "string \<Rightarrow> string \<Rightarrow> string \<Rightarrow> string" where
  "version_key stagID anchorID versionID = stagID @ '':'' @ anchorID @ '':'' @ versionID"

definition anchor_key :: "string \<Rightarrow> string \<Rightarrow> string" where
  "anchor_key stagID anchorID = stagID @ '':'' @ anchorID"

definition AddAnchorVersion ::
  "Env \<Rightarrow> Store \<Rightarrow> string \<Rightarrow> string \<Rightarrow> AnchorVersion \<Rightarrow> error + Store" where
  "AddAnchorVersion env s stagID anchorID version =
     db_Update env OpAddAnchorVersion
       (case bucket_Put (VersionsBucket s) (version_key stagID anchorID (ver_VersionID version)) version of
          Inl e \<Rightarrow> Inl e
        | Inr b \<Rightarrow> Inr (s\<lparr>VersionsBucket := b\<rparr>))"

definition GetAnchorVersions :: "Store \<Rightarrow> string \<Rightarrow> string \<Rightarrow> AnchorVersion list" where
  "GetAnchorVersions s stagID anchorID =
     map snd (cursor_scan (VersionsBucket s) (stagID @ '':'' @ anchorID @ '':''))"

text \<open>The second loop of \<^verbatim>\<open>GetAnchorVersionsWithPaging\<close>: skip \<open>offset\<close>, take \<open>limit\<close>.\<close>

fun paging_loop ::
  "int \<Rightarrow> int \<Rightarrow> int \<Rightarrow> AnchorVersion list \<Rightarrow> AnchorVersion list \<Rightarrow> AnchorVersion list" where
  "paging_loop offset limit current versions [] = versions"
| "paging_loop offset limit current versions (v # rest) =
     (if current < offset then paging_loop offset limit (current + 1) versions rest
      else if int (length versions) \<ge> limit then versions
      else paging_loop offset limit (current + 1) (versions @ [v]) rest)"

definition GetAnchorVersionsWithPaging ::
  "Store \<Rightarrow> string \<Rightarrow> string \<Rightarrow> int \<Rightarrow> int \<Rightarrow> AnchorVersion list \<times> int" where
  "GetAnchorVersionsWithPaging s stagID anchorID offset limit =
     (let entries = map snd (cursor_scan (VersionsBucket s) (stagID @ '':'' @ anchorID @ '':''))
      in (paging_loop offset limit 0 [] entries, int (length entries)))"

definition GetAnchorHistory :: "Store \<Rightarrow> string \<Rightarrow> string \<Rightarrow> int \<Rightarrow> int \<Rightarrow> AnchorHistory" where
  "GetAnchorHistory s stagID anchorID offset limit =
     (case GetAnchorVersionsWithPaging s stagID anchorID offset limit of
        (versions, count) \<Rightarrow>
          \<lparr>hist_AnchorID = anchorID, hist_StagID = stagID, hist_Versions = versions,
           hist_Total = count, hist_Offset = offset, hist_Limit = limit\<rparr>)"

subsection \<open>Anchor operations\<close>

definition CreateAnchor :: "Env \<Rightarrow> Store \<Rightarrow> Anchor \<Rightarrow> error + Store \<times> Anchor" where
  "CreateAnchor env s anchor =
     db_Update env OpCreateAnchor
       (let key = anchor_key (anc_StagID anchor) (anc_ID anchor) in
        if bucket_Get (AnchorsBucket s) key \<noteq> None
        then Inl (''anchor with ID '' @ anc_ID anchor @ '' already exists in stag '' @ anc_StagID anchor)
        else
          let anchor' = anchor\<lparr>anc_CreatedAt := now env, anc_UpdatedAt := now env\<rparr> in
          case bucket_Put (AnchorsBucket s) key anchor' of
            Inl e \<Rightarrow> Inl e
          | Inr b \<Rightarrow> Inr (s\<lparr>AnchorsBucket := b\<rparr>, anchor'))"

definition GetAnchor :: "Store \<Rightarrow> string \<Rightarrow> string \<Rightarrow> error + Anchor" where
  "GetAnchor s stagID anchorID =
     (case bucket_Get (AnchorsBucket s) (anchor_key stagID anchorID) of
        None \<Rightarrow> Inl (''anchor with ID '' @ anchorID @ '' not found in stag '' @ stagID)
      | Some anchor \<Rightarrow> Inr (anchor\<lparr>anc_Versions := GetAnchorVersions s stagID anchorID\<rparr>))"

definition UpdateAnchor :: "Env \<Rightarrow> Store \<Rightarrow> Anchor \<Rightarrow> error + Store \<times> Anchor" where
  "UpdateAnchor env s anchor =
     db_Update env OpUpdateAnchor
       (let key = anchor_key (anc_StagID anchor) (anc_ID anchor) in
        if bucket_Get (AnchorsBucket s) key = None
        then Inl (''anchor with ID '' @ anc_ID anchor @ '' does not exist in stag '' @ anc_StagID anchor)
        else
          let anchor' = anchor\<lparr>anc_UpdatedAt := now env\<rparr> in
          case bucket_Put (AnchorsBucket s) key anchor' of
            Inl e \<Rightarrow> Inl e
          | Inr b \<Rightarrow> Inr (s\<lparr>AnchorsBucket := b\<rparr>, anchor'))"

definition ListAnchors :: "Store \<Rightarrow> string \<Rightarrow> Anchor list" where
  "ListAnchors s stagID =
     map (\<lambda>(k, anchor). anchor\<lparr>anc_Versions := GetAnchorVersions s stagID (anc_ID anchor)\<rparr>)
         (cursor_scan (AnchorsBucket s) (stagID @ '':''))"

text \<open>
  The deleting loops call \<^verbatim>\<open>Bucket.Delete\<close> on the key under a cursor and then move the
  cursor with \<^verbatim>\<open>Next\<close>. An entry is deleted only after the loop condition has found the
  prefix on its key, so the loop deletes entries that the prefix scan of the bucket
  holds. After a deletion \<^verbatim>\<open>Next\<close> may pass over entries that follow the deleted one;
  which ones depends on the page state of the key/value engine, which the program
  does not decide. The keys that the cursor passes over are therefore an input,
  \<open>passed\<close>, like the clock and the failing commits.
\<close>

definition delete_scanned :: "string list \<Rightarrow> 'v bucket \<Rightarrow> string \<Rightarrow> 'v bucket" where
  "delete_scanned passed b prefix =
     fold (\<lambda>(k, v) b'. bucket_Delete b' k)
          (filter (\<lambda>(k, v). k \<notin> set passed) (cursor_scan b prefix)) b"

definition DeleteAnchor ::
  "Env \<Rightarrow> string list \<Rightarrow> Store \<Rightarrow> string \<Rightarrow> string \<Rightarrow> error + Store" where
  "DeleteAnchor env passed s stagID anchorID =
     db_Update env OpDeleteAnchor
       (Inr (s\<lparr>VersionsBucket :=
                 delete_scanned passed (VersionsBucket s) (stagID @ '':'' @ anchorID @ '':''),
              AnchorsBucket := bucket_Delete (AnchorsBucket s) (anchor_key stagID anchorID)\<rparr>))"

subsection \<open>Stag operations\<close>

definition CreateStag :: "Env \<Rightarrow> Store \<Rightarrow> Stag \<Rightarrow> error + Store \<times> Stag" where
  "CreateStag env s stag =
     db_Update env OpCreateStag
       (if bucket_Get (StagsBucket s) (stag_ID stag) \<noteq> None
        then Inl (''stag with ID '' @ stag_ID stag @ '' already exists'')
        else
          let stag' = stag\<lparr>stag_CreatedAt := now env, stag_UpdatedAt := now env\<rparr> in
          case bucket_Put (StagsBucket s) (stag_ID stag) stag' of
            Inl e \<Rightarrow> Inl e
          | Inr b \<Rightarrow> Inr (s\<lparr>StagsBucket := b\<rparr>, stag'))"

text \<open>\<^verbatim>\<open>stag.Anchors[anchor.ID] = anchor\<close> for each listed anchor, into a fresh map.\<close>

definition anchors_map :: "Anchor list \<Rightarrow> (string \<times> Anchor) list" where
  "anchors_map anchors = fold (\<lambda>anchor m. AList.update (anc_ID anchor) anchor m) anchors []"

definition GetStag :: "Store \<Rightarrow> string \<Rightarrow> error + Stag" where
  "GetStag s stagID =
     (case bucket_Get (StagsBucket s) stagID of
        None \<Rightarrow> Inl (''stag with ID '' @ stagID @ '' not found'')
      | Some stag \<Rightarrow> Inr (stag\<lparr>stag_Anchors := anchors_map (ListAnchors s stagID)\<rparr>))"

definition UpdateStag :: "Env \<Rightarrow> Store \<Rightarrow> Stag \<Rightarrow> error + Store \<times> Stag" where
  "UpdateStag env s stag =
     db_Update env OpUpdateStag
       (if bucket_Get (StagsBucket s) (stag_ID stag) = None
        then Inl (''stag with ID '' @ stag_ID stag @ '' does not exist'')
        else
          let stag' = stag\<lparr>stag_UpdatedAt := now env\<rparr> in
          case bucket_Put (StagsBucket s) (stag_ID stag) stag' of
            Inl e \<Rightarrow> Inl e
          | Inr b \<Rightarrow> Inr (s\<lparr>StagsBucket := b\<rparr>, stag'))"

text \<open>
  \<^verbatim>\<open>UpdateStagStats\<close> re-reads the stored stag, replaces its \<^verbatim>\<open>Stats\<close> and the update
  time, and writes it back; every other stored field, \<^verbatim>\<open>Metadata\<close> included, is kept.
\<close>

definition UpdateStagStats :: "Env \<Rightarrow> Store \<Rightarrow> string \<Rightarrow> StagStats \<Rightarrow> error + Store" where
  "UpdateStagStats env s stagID stats =
     db_Update env OpUpdateStagStats
       (case bucket_Get (StagsBucket s) stagID of
          None \<Rightarrow> Inl (''stag with ID '' @ stagID @ '' not found'')
        | Some stag \<Rightarrow>
            (case bucket_Put (StagsBucket s) stagID
                    (stag\<lparr>stag_Stats := stats, stag_UpdatedAt := now env\<rparr>) of
               Inl e \<Rightarrow> Inl e
             | Inr b \<Rightarrow> Inr (s\<lparr>StagsBucket := b\<rparr>)))"

definition ListStags :: "Store \<Rightarrow> Stag list" where
  "ListStags s =
     map (\<lambda>(k, stag). stag\<lparr>stag_Anchors := anchors_map (ListAnchors s (stag_ID stag))\<rparr>)
         (StagsBucket s)"

text \<open>
  \<^verbatim>\<open>DeleteStag\<close>: for every anchor key that the cursor visits under the prefix
  \<^verbatim>\<open>stagID + ":"\<close>, the versions visited under \<^verbatim>\<open>stagID + ":" + rest-of-key + ":"\<close> are
  deleted, then the anchor; at the end the stag. Both loops delete under a moving
  cursor: \<open>passed_anchors\<close> and \<open>passed_versions\<close> are the keys passed over.
\<close>

definition DeleteStag ::
  "Env \<Rightarrow> string list \<Rightarrow> string list \<Rightarrow> Store \<Rightarrow> string \<Rightarrow> error + Store" where
  "DeleteStag env passed_anchors passed_versions s stagID =
     db_Update env OpDeleteStag
       (let anchorPrefix = stagID @ '':'';
            visited = filter (\<lambda>k. k \<notin> set passed_anchors)
                        (map fst (cursor_scan (AnchorsBucket s) anchorPrefix));
            vb = fold (\<lambda>k b. delete_scanned passed_versions b
                         (stagID @ '':'' @ drop (length anchorPrefix) k @ '':''))
                      visited (VersionsBucket s);
            ab = fold (\<lambda>k b. bucket_Delete b k) visited (AnchorsBucket s)
        in Inr (s\<lparr>VersionsBucket := vb, AnchorsBucket := ab,
                   StagsBucket := bucket_Delete (StagsBucket s) stagID\<rparr>))"

section \<open>The fingerprinter (\<^verbatim>\<open>FastHasher\<close>)\<close>

text \<open>
  Each \<^verbatim>\<open>hash...\<close> method is modelled by the bytes it writes into the digest, in order;
  \<open>CalculateEventHash\<close> is the hexadecimal MD5 digest of the whole feed.
\<close>

definition f64_bytes :: "float64 \<Rightarrow> byte list" where
  "f64_bytes v = le_bytes 8 v"

definition u32_bytes :: "u32 \<Rightarrow> byte list" where
  "u32_bytes v = le_bytes 4 v"

text \<open>\<^verbatim>\<open>binary.Write\<close> of \<^verbatim>\<open>int32(n)\<close>: the conversion keeps the low 32 bits.\<close>

definition int32_bytes :: "int \<Rightarrow> byte list" where
  "int32_bytes n = le_bytes 4 (word_of_int n :: 32 word)"

definition floats_bytes :: "float64 list \<Rightarrow> byte list" where
  "floats_bytes vs = concat (map f64_bytes vs)"

text \<open>
  \<^verbatim>\<open>for i := 0; i < len(xs); i += 30 { if i+2 < len(xs) { write xs[i], xs[i+1], xs[i+2] } }\<close>
\<close>

function sample_triples :: "float64 list \<Rightarrow> nat \<Rightarrow> byte list" where
  "sample_triples xs i =
     (if i < length xs
      then (if i + 2 < length xs
            then f64_bytes (xs ! i) @ f64_bytes (xs ! (i + 1)) @ f64_bytes (xs ! (i + 2))
            else []) @ sample_triples xs (i + 30)
      else [])"
  by pat_completeness auto
termination
  by (relation "measure (\<lambda>(xs, i). length xs - i)") auto

declare sample_triples.simps [simp del]

text \<open>\<^verbatim>\<open>for i := 0; i < len(xs); i += 10 { write xs[i] }\<close>\<close>

function sample_tenth :: "('a \<Rightarrow> byte list) \<Rightarrow> 'a list \<Rightarrow> nat \<Rightarrow> byte list" where
  "sample_tenth enc xs i =
     (if i < length xs then enc (xs ! i) @ sample_tenth enc xs (i + 10) else [])"
  by pat_completeness auto
termination
  by (relation "measure (\<lambda>(enc, xs, i). length xs - i)") auto

declare sample_tenth.simps [simp del]

definition hashTransform :: "Transform \<Rightarrow> byte list" where
  "hashTransform transform =
     floats_bytes (Translation transform) @ floats_bytes (Rotation transform)
       @ floats_bytes (Scale transform)"

definition hashMeshData :: "MeshData \<Rightarrow> byte list" where
  "hashMeshData mesh =
     str_bytes (mesh_AnchorID mesh)
     @ int32_bytes (int (length (mesh_Vertices mesh)))
     @ int32_bytes (int (length (mesh_Faces mesh)))
     @ (if length (mesh_Vertices mesh) div 3 > 1000
        then sample_triples (mesh_Vertices mesh) 0
        else floats_bytes (mesh_Vertices mesh))
     @ (if length (mesh_Faces mesh) > 1000
        then sample_tenth u32_bytes (mesh_Faces mesh) 0
        else concat (map u32_bytes (mesh_Faces mesh)))
     @ str_bytes (mesh_Classification mesh)
     @ f64_bytes (mesh_Confidence mesh)"

definition hashPoseData :: "PoseData \<Rightarrow> byte list" where
  "hashPoseData pose =
     (case pose_Transform pose of None \<Rightarrow> [] | Some t \<Rightarrow> hashTransform t)
     @ floats_bytes (pose_Velocity pose)
     @ floats_bytes (pose_Acceleration pose)
     @ f64_bytes (pose_Confidence pose)"

definition hashCameraData :: "CameraData \<Rightarrow> byte list" where
  "hashCameraData camera =
     int32_bytes (cam_Width camera)
     @ int32_bytes (cam_Height camera)
     @ str_bytes (cam_Format camera)
     @ int32_bytes (int (length (cam_ImageData camera)))
     @ floats_bytes (cam_Intrinsics camera)
     @ (case cam_Transform camera of None \<Rightarrow> [] | Some t \<Rightarrow> hashTransform t)"

definition hashDepthData :: "DepthData \<Rightarrow> byte list" where
  "hashDepthData depth =
     int32_bytes (depth_Width depth)
     @ int32_bytes (depth_Height depth)
     @ int32_bytes (int (length (depth_Data depth)))
     @ (if length (depth_Data depth) > 1000
        then sample_tenth f64_bytes (depth_Data depth) 0
        else floats_bytes (depth_Data depth))"

definition hashPointCloudData :: "PointCloudData \<Rightarrow> byte list" where
  "hashPointCloudData pc =
     int32_bytes (int (length (pc_Points pc)))
     @ (if length (pc_Points pc) div 3 > 1000
        then sample_triples (pc_Points pc) 0
        else floats_bytes (pc_Points pc))"

definition hashLightingData :: "LightingData \<Rightarrow> byte list" where
  "hashLightingData lighting =
     f64_bytes (light_AmbientIntensity lighting)
     @ floats_bytes (light_DirectionalLight lighting)
     @ floats_bytes (light_SphericalHarmonics lighting)
     @ f64_bytes (light_ColorTemperature lighting)"

text \<open>The \<^verbatim>\<open>switch event.EventType\<close> of \<^verbatim>\<open>CalculateEventHash\<close>, with its nil checks.\<close>

definition payload_feed :: "SpatialEvent \<Rightarrow> byte list" where
  "payload_feed event =
     (if ev_EventType event = ''mesh''
        then (case ev_MeshData event of None \<Rightarrow> [] | Some d \<Rightarrow> hashMeshData d)
      else if ev_EventType event = ''pose''
        then (case ev_PoseData event of None \<Rightarrow> [] | Some d \<Rightarrow> hashPoseData d)
      else if ev_EventType event = ''camera''
        then (case ev_CameraData event of None \<Rightarrow> [] | Some d \<Rightarrow> hashCameraData d)
      else if ev_EventType event = ''depth''
        then (case ev_DepthData event of None \<Rightarrow> [] | Some d \<Rightarrow> hashDepthData d)
      else if ev_EventType event = ''pointCloud''
        then (case ev_PointCloudData event of None \<Rightarrow> [] | Some d \<Rightarrow> hashPointCloudData d)
      else if ev_EventType event = ''lighting''
        then (case ev_LightingData event of None \<Rightarrow> [] | Some d \<Rightarrow> hashLightingData d)
      else [])"

definition event_feed :: "SpatialEvent \<Rightarrow> byte list" where
  "event_feed event =
     str_bytes (ev_EventType event)
     @ le_bytes 8 (ev_FrameNumber event)
     @ payload_feed event
     @ (case ev_Transform event of None \<Rightarrow> [] | Some t \<Rightarrow> hashTransform t)"

definition CalculateEventHash :: "SpatialEvent \<Rightarrow> string" where
  "CalculateEventHash event = hex (md5 (event_feed event))"

subsection \<open>Geometry signature\<close>

text \<open>
  The bounding-box loop
  \<^verbatim>\<open>for i := 0; i < len(vs); i += 3 { if i+2 < len(vs) { ... math.Min / math.Max ... } }\<close>
  over the state \<open>((minX, minY, minZ), (maxX, maxY, maxZ))\<close>.
\<close>

type_synonym bbox = "(fval \<times> fval \<times> fval) \<times> (fval \<times> fval \<times> fval)"

function bbox_loop :: "float64 list \<Rightarrow> nat \<Rightarrow> bbox \<Rightarrow> bbox" where
  "bbox_loop vs i box =
     (if i < length vs
      then bbox_loop vs (i + 3)
             (if i + 2 < length vs
              then (case box of ((minX, minY, minZ), (maxX, maxY, maxZ)) \<Rightarrow>
                      let x = f64_decode (vs ! i);
                          y = f64_decode (vs ! (i + 1));
                          z = f64_decode (vs ! (i + 2))
                      in ((math_Min minX x, math_Min minY y, math_Min minZ z),
                          (math_Max maxX x, math_Max maxY y, math_Max maxZ z)))
              else box)
      else box)"
  by pat_completeness auto
termination
  by (relation "measure (\<lambda>(vs, i, box). length vs - i)") auto

declare bbox_loop.simps [simp del]

definition f64_zero :: fval where
  "f64_zero = FFin False 0 0"

definition CalculateGeometrySignature :: "MeshData option \<Rightarrow> string" where
  "CalculateGeometrySignature mesh_opt =
     (case mesh_opt of
        None \<Rightarrow> ''empty''
      | Some mesh \<Rightarrow>
          let vs = mesh_Vertices mesh in
          if length vs = 0 then ''empty''
          else
            let vertexCount = length vs div 3;
                faceCount = length (mesh_Faces mesh);
                box = (if length vs \<ge> 3
                       then (let x0 = f64_decode (vs ! 0);
                                 y0 = f64_decode (vs ! 1);
                                 z0 = f64_decode (vs ! 2)
                             in bbox_loop vs 0 ((x0, y0, z0), (x0, y0, z0)))
                       else ((f64_zero, f64_zero, f64_zero), (f64_zero, f64_zero, f64_zero)))
            in case box of ((minX, minY, minZ), (maxX, maxY, maxZ)) \<Rightarrow>
                 let volume = f64_mul (f64_mul (f64_sub maxX minX) (f64_sub maxY minY))
                                      (f64_sub maxZ minZ)
                 in mesh_AnchorID mesh @ ''_'' @ show_nat vertexCount @ ''_'' @ show_nat faceCount
                      @ ''_'' @ fmt_f3 volume)"

section \<open>The versioning engine (\<^verbatim>\<open>internal/stag/service.go\<close>)\<close>

text \<open>
  The service methods take the store and return the store they leave behind, together
  with the error they return (\<open>None\<close> for \<^verbatim>\<open>nil\<close>). Logging and the in-memory health
  table do not touch the store and are left out.
\<close>

definition new_version :: "Env \<Rightarrow> SpatialEvent \<Rightarrow> string \<Rightarrow> Anchor \<Rightarrow> AnchorVersion" where
  "new_version env event contentHash anchor =
     \<lparr>ver_VersionID = ''v'' @ show_int (Unix (now env)),
      ver_Hash = contentHash,
      ver_Timestamp = ev_Timestamp event,
      ver_ChangeType = (if length (anc_Versions anchor) = 0 then ''create'' else ''update''),
      ver_Transform = ev_Transform event,
      ver_MeshData = ev_MeshData event,
      ver_PoseData = ev_PoseData event,
      ver_CameraData = ev_CameraData event,
      ver_DepthData = ev_DepthData event,
      ver_PointCloudData = ev_PointCloudData event,
      ver_LightingData = ev_LightingData event,
      ver_EventID = ev_EventID event,
      ver_SessionID = ev_SessionID event,
      ver_ClientID = ev_ClientID event,
      ver_DeviceID = ev_DeviceID event,
      ver_FrameNumber = ev_FrameNumber event,
      ver_Metadata = ev_Metadata event\<rparr>"

text \<open>\<^verbatim>\<open>m[key] == nil\<close> on a \<^verbatim>\<open>map[string]interface{}\<close>.\<close>

definition meta_is_nil :: "metadata \<Rightarrow> string \<Rightarrow> bool" where
  "meta_is_nil m key = (map_of m key = None \<or> map_of m key = Some JNull)"

text \<open>
  \<^verbatim>\<open>if stag.Metadata[key] == nil { stag.Metadata[key] = true; count++ }\<close>, on the pair of
  the in-memory metadata and a counter.
\<close>

definition track_unique :: "string \<Rightarrow> metadata \<times> int \<Rightarrow> metadata \<times> int" where
  "track_unique key mc =
     (case mc of (m, c) \<Rightarrow>
        if meta_is_nil m key then (AList.update key (JBool True) m, c + 1) else (m, c))"

text \<open>The statistics that \<^verbatim>\<open>processAnchorEvent\<close> hands to \<^verbatim>\<open>UpdateStagStats\<close>.\<close>

definition updated_stats :: "Env \<Rightarrow> Stag \<Rightarrow> SpatialEvent \<Rightarrow> StagStats" where
  "updated_stats env stag event =
     (let st = stag_Stats stag;
          (m1, sc) = track_unique (''session_'' @ ev_SessionID event) (stag_Metadata stag, SessionCount st);
          (m2, cc) = track_unique (''client_'' @ ev_ClientID event) (m1, ClientCount st);
          (m3, dc) = track_unique (''device_'' @ ev_DeviceID event) (m2, DeviceCount st)
      in st\<lparr>LastActivity := now env,
             EventCount := EventCount st + 1,
             VersionCount := VersionCount st + 1,
             SessionCount := sc,
             ClientCount := cc,
             DeviceCount := dc\<rparr>)"

definition fresh_anchor :: "Stag \<Rightarrow> string \<Rightarrow> SpatialEvent \<Rightarrow> string \<Rightarrow> Anchor" where
  "fresh_anchor stag anchorID event contentHash =
     \<lparr>anc_ID = anchorID,
      anc_StagID = stag_ID stag,
      anc_CurrentHash = contentHash,
      anc_Versions = [],
      anc_CreatedAt = zero_Time,
      anc_UpdatedAt = zero_Time,
      anc_LastSessionID = ev_SessionID event,
      anc_LastClientID = ev_ClientID event,
      anc_LastDeviceID = ev_DeviceID event,
      anc_Metadata = []\<rparr>"

text \<open>
  \<^verbatim>\<open>processAnchorEvent\<close> in three parts, in source order: the anchor is read or created;
  the two duplicate checks decide whether anything is written; the tail of the method
  (\<open>append_version\<close>) builds the version and issues the three writes
  \<^verbatim>\<open>AddAnchorVersion\<close>, \<^verbatim>\<open>UpdateAnchor\<close> and \<^verbatim>\<open>UpdateStagStats\<close>, each a transaction of its own.
\<close>

definition get_or_create_anchor ::
  "Env \<Rightarrow> Store \<Rightarrow> Stag \<Rightarrow> string \<Rightarrow> SpatialEvent \<Rightarrow> string \<Rightarrow> error + Store \<times> Anchor" where
  "get_or_create_anchor env s stag anchorID event contentHash =
     (case GetAnchor s (stag_ID stag) anchorID of
        Inr anchor \<Rightarrow> Inr (s, anchor)
      | Inl err \<Rightarrow> CreateAnchor env s (fresh_anchor stag anchorID event contentHash))"

definition append_version ::
  "Env \<Rightarrow> Store \<Rightarrow> Stag \<Rightarrow> string \<Rightarrow> SpatialEvent \<Rightarrow> string \<Rightarrow> Anchor \<Rightarrow> Store \<times> error option" where
  "append_version env s1 stag anchorID event contentHash anchor1 =
     (let version = new_version env event contentHash anchor1 in
      case AddAnchorVersion env s1 (stag_ID stag) anchorID version of
        Inl err \<Rightarrow> (s1, Some (''failed to add anchor version: '' @ err))
      | Inr s2 \<Rightarrow>
          (case UpdateAnchor env s2
                  (anchor1\<lparr>anc_CurrentHash := contentHash,
                           anc_LastSessionID := ev_SessionID event,
                           anc_LastClientID := ev_ClientID event,
                           anc_LastDeviceID := ev_DeviceID event,
                           anc_Versions := anc_Versions anchor1 @ [version]\<rparr>) of
             Inl err \<Rightarrow> (s2, Some (''failed to update anchor: '' @ err))
           | Inr (s3, anchor3) \<Rightarrow>
               (case UpdateStagStats env s3 (stag_ID stag) (updated_stats env stag event) of
                  Inl err \<Rightarrow> (s3, Some (''failed to update stag stats: '' @ err))
                | Inr s4 \<Rightarrow> (s4, None))))"

definition is_mesh_event :: "SpatialEvent \<Rightarrow> bool" where
  "is_mesh_event event = (ev_EventType event = ''mesh'' \<and> ev_MeshData event \<noteq> None)"

definition processAnchorEvent ::
  "Env \<Rightarrow> Store \<Rightarrow> Stag \<Rightarrow> string \<Rightarrow> SpatialEvent \<Rightarrow> Store \<times> error option" where
  "processAnchorEvent env s stag anchorID event =
     (let contentHash = CalculateEventHash event in
      case get_or_create_anchor env s stag anchorID event contentHash of
        Inl err \<Rightarrow> (s, Some (''failed to create anchor: '' @ err))
      | Inr (s1, anchor) \<Rightarrow>
          if anc_CurrentHash anchor = contentHash then (s1, None)
          else
            let geomSig = CalculateGeometrySignature (ev_MeshData event) in
            if is_mesh_event event
               \<and> map_of (anc_Metadata anchor) ''geom_signature'' = Some (JString geomSig)
            then (s1, None)
            else
              append_version env s1 stag anchorID event contentHash
                (if is_mesh_event event
                 then anchor\<lparr>anc_Metadata :=
                        AList.update ''geom_signature'' (JString geomSig) (anc_Metadata anchor)\<rparr>
                 else anchor))"

text \<open>The anchor id chosen per event type, or the error for a missing payload.\<close>

definition target_anchor :: "SpatialEvent \<Rightarrow> error + string" where
  "target_anchor event =
     (let frame = show_nat (unat (ev_FrameNumber event)) in
      if ev_EventType event = ''mesh'' then
        (case ev_MeshData event of
           None \<Rightarrow> Inl ''mesh event missing mesh data''
         | Some mesh \<Rightarrow>
             Inr (if mesh_AnchorID mesh = [] then ''mesh_'' @ ev_ClientID event @ ''_'' @ frame
                  else mesh_AnchorID mesh))
      else if ev_EventType event = ''pose'' then
        (if ev_PoseData event = None then Inl ''pose event missing pose data''
         else Inr (''pose_'' @ ev_ClientID event))
      else if ev_EventType event = ''camera'' then
        (if ev_CameraData event = None then Inl ''camera event missing camera data''
         else Inr (''camera_'' @ ev_ClientID event))
      else if ev_EventType event = ''depth'' then
        (if ev_DepthData event = None then Inl ''depth event missing depth data''
         else Inr (''depth_'' @ ev_ClientID event))
      else if ev_EventType event = ''pointCloud'' then
        (if ev_PointCloudData event = None then Inl ''pointCloud event missing point cloud data''
         else Inr (''pointcloud_'' @ ev_ClientID event @ ''_'' @ frame))
      else if ev_EventType event = ''lighting'' then
        (if ev_LightingData event = None then Inl ''lighting event missing lighting data''
         else Inr (''lighting_'' @ ev_ClientID event))
      else Inr (''generic_'' @ ev_ClientID event @ ''_'' @ frame))"

definition empty_StagStats :: StagStats where
  "empty_StagStats =
     \<lparr>AnchorCount = 0, VersionCount = 0, EventCount = 0, SessionCount = 0, ClientCount = 0,
      DeviceCount = 0, LastActivity = zero_Time, FirstActivity = zero_Time, DataSize = 0\<rparr>"

definition fresh_stag :: "Env \<Rightarrow> string \<Rightarrow> Stag" where
  "fresh_stag env stagID =
     \<lparr>stag_ID = stagID,
      stag_Name = ''Session '' @ stagID,
      stag_Description = ''Automatically created from session '' @ stagID,
      stag_CreatedAt = zero_Time,
      stag_UpdatedAt = zero_Time,
      stag_Anchors = [],
      stag_Stats = empty_StagStats\<lparr>FirstActivity := now env\<rparr>,
      stag_Metadata = []\<rparr>"

definition processEvent :: "Env \<Rightarrow> Store \<Rightarrow> SpatialEvent \<Rightarrow> Store \<times> error option" where
  "processEvent env s event =
     (let stagID = (if ev_SessionID event = [] then ''default'' else ev_SessionID event) in
      case (case GetStag s stagID of
              Inr stag \<Rightarrow> Inr (s, stag)
            | Inl err \<Rightarrow> CreateStag env s (fresh_stag env stagID)) of
        Inl err \<Rightarrow> (s, Some (''failed to create stag: '' @ err))
      | Inr (s1, stag) \<Rightarrow>
          (case target_anchor event of
             Inl err \<Rightarrow> (s1, Some err)
           | Inr anchorID \<Rightarrow> processAnchorEvent env s1 stag anchorID event))"

text \<open>
  \<^verbatim>\<open>processBatch\<close>: the events in order, each under its own clock reading and commit
  outcomes; a failed event is counted and the loop goes on. The result is the store and
  the two counters that the method logs.
\<close>

fun processBatch :: "(Env \<times> SpatialEvent) list \<Rightarrow> Store \<times> nat \<times> nat \<Rightarrow> Store \<times> nat \<times> nat" where
  "processBatch [] acc = acc"
| "processBatch ((env, event) # events) (s, processed, errors) =
     (case processEvent env s event of
        (s', Some err) \<Rightarrow> processBatch events (s', processed, errors + 1)
      | (s', None) \<Rightarrow> processBatch events (s', processed + 1, errors))"

definition ingest :: "(Env \<times> SpatialEvent) list \<Rightarrow> Store \<Rightarrow> Store" where
  "ingest events s = fst (processBatch events (s, 0, 0))"

section \<open>The history handler\<close>

text \<open>
  \<^verbatim>\<open>strconv.Atoi\<close> on a 64-bit platform: an optional sign, then at least one decimal
  digit and nothing else; a value outside the \<^verbatim>\<open>int\<close> range is an error.
\<close>

definition digit_of :: "char \<Rightarrow> nat option" where
  "digit_of c =
     (let n = of_char c :: nat in if 48 \<le> n \<and> n \<le> 57 then Some (n - 48) else None)"

fun parse_digits :: "nat \<Rightarrow> string \<Rightarrow> nat option" where
  "parse_digits acc [] = Some acc"
| "parse_digits acc (c # cs) =
     (case digit_of c of None \<Rightarrow> None | Some d \<Rightarrow> parse_digits (10 * acc + d) cs)"

definition Atoi :: "string \<Rightarrow> int option" where
  "Atoi str =
     (case str of
        [] \<Rightarrow> None
      | c # cs \<Rightarrow>
          let negative = (c = CHR ''-'');
              digits = (if c = CHR ''-'' \<or> c = CHR ''+'' then cs else str)
          in if digits = [] then None
             else (case parse_digits 0 digits of
                     None \<Rightarrow> None
                   | Some n \<Rightarrow>
                       let v = (if negative then - int n else int n)
                       in if - (2 ^ 63) \<le> v \<and> v < 2 ^ 63 then Some v else None))"

datatype 'a http_response = HttpOK 'a | HttpError nat string

text \<open>
  \<^verbatim>\<open>HandleGetAnchorHistory\<close>, given the path variables and the raw \<^verbatim>\<open>offset\<close> and
  \<^verbatim>\<open>limit\<close> query parameters (the empty string when a parameter is absent). The read
  transaction of the store cannot fail in this model, so the handler's error branch
  (status 500) is never taken.
\<close>

definition HandleGetAnchorHistory ::
  "Store \<Rightarrow> string \<Rightarrow> string \<Rightarrow> string \<Rightarrow> string \<Rightarrow> AnchorHistory http_response" where
  "HandleGetAnchorHistory s stagID anchorID o_param l_param =
     (let offset = (if o_param \<noteq> [] then (case Atoi o_param of Some parsed \<Rightarrow> parsed | None \<Rightarrow> 0)
                    else 0);
          limit = (if l_param \<noteq> []
                   then (case Atoi l_param of
                           Some parsed \<Rightarrow> if parsed > 0 \<and> parsed \<le> 1000 then parsed else 50
                         | None \<Rightarrow> 50)
                   else 50)
      in HttpOK (GetAnchorHistory s stagID anchorID offset limit))"

section \<open>Scenarios and auxiliary notions used in the statements\<close>

text \<open>An environment in which every commit succeeds, at a clock reading given in seconds.\<close>

definition at_second :: "int \<Rightarrow> Env" where
  "at_second t = \<lparr>now = t * 1000000000, io_fails = []\<rparr>"

text \<open>A pose event of session \<open>S1\<close> from a given client.\<close>

definition pose_event :: "string \<Rightarrow> 64 word \<Rightarrow> SpatialEvent" where
  "pose_event client frame =
     \<lparr>ev_EventID = ''e'', ev_EventType = ''pose'', ev_Timestamp = 0, ev_ServerTime = 0,
      ev_SessionID = ''S1'', ev_ClientID = client, ev_DeviceID = ''D1'', ev_FrameNumber = frame,
      ev_Transform = None,
      ev_PoseData = Some \<lparr>pose_Transform = None, pose_Velocity = [0, 0, 0],
                           pose_Acceleration = [0, 0, 0], pose_AngularVelocity = [0, 0, 0],
                           pose_Confidence = 0\<rparr>,
      ev_MeshData = None, ev_CameraData = None, ev_DepthData = None,
      ev_PointCloudData = None, ev_LightingData = None, ev_Metadata = []\<rparr>"

definition two_poses :: "(Env \<times> SpatialEvent) list" where
  "two_poses =
     [(at_second 1700000001, pose_event ''C1'' 1), (at_second 1700000002, pose_event ''C2'' 1)]"

text \<open>Every stored stag has \<open>anchor_count = 0\<close>.\<close>

definition anchor_count_zero :: "Store \<Rightarrow> bool" where
  "anchor_count_zero s = (\<forall>(k, stag) \<in> set (StagsBucket s). AnchorCount (stag_Stats stag) = 0)"

text \<open>The stag an event is filed under: its session id, or \<open>default\<close>.\<close>

definition stag_id_of :: "SpatialEvent \<Rightarrow> string" where
  "stag_id_of event = (if ev_SessionID event = [] then ''default'' else ev_SessionID event)"

text \<open>
  The anchor that \<open>append_version\<close> hands to \<^verbatim>\<open>UpdateAnchor\<close>, and the record that
  \<^verbatim>\<open>UpdateAnchor\<close> stores for it.
\<close>

definition anchor_with_signature :: "SpatialEvent \<Rightarrow> Anchor \<Rightarrow> Anchor" where
  "anchor_with_signature event anchor =
     (if is_mesh_event event
      then anchor\<lparr>anc_Metadata :=
             AList.update ''geom_signature''
               (JString (CalculateGeometrySignature (ev_MeshData event))) (anc_Metadata anchor)\<rparr>
      else anchor)"

definition updated_anchor :: "Env \<Rightarrow> SpatialEvent \<Rightarrow> Anchor \<Rightarrow> Anchor" where
  "updated_anchor env event anchor1 =
     anchor1\<lparr>anc_CurrentHash := CalculateEventHash event,
             anc_LastSessionID := ev_SessionID event,
             anc_LastClientID := ev_ClientID event,
             anc_LastDeviceID := ev_DeviceID event,
             anc_Versions := anc_Versions anchor1
                @ [new_version env event (CalculateEventHash event) anchor1],
             anc_UpdatedAt := now env\<rparr>"

text \<open>The event is a duplicate for the anchor: equal content hash, or equal mesh signature.\<close>

definition is_duplicate :: "SpatialEvent \<Rightarrow> Anchor \<Rightarrow> bool" where
  "is_duplicate event anchor =
     (anc_CurrentHash anchor = CalculateEventHash event
      \<or> (is_mesh_event event
          \<and> map_of (anc_Metadata anchor) ''geom_signature''
              = Some (JString (CalculateGeometrySignature (ev_MeshData event)))))"

text \<open>
  A camera event of session \<open>S1\<close>, client \<open>C1\<close>: a 2 by 1 image in format \<open>rgb\<close> with
  the given frame number and image bytes.
\<close>

definition camera_event :: "64 word \<Rightarrow> byte list \<Rightarrow> SpatialEvent" where
  "camera_event frame img =
     \<lparr>ev_EventID = ''e'', ev_EventType = ''camera'', ev_Timestamp = 0, ev_ServerTime = 0,
      ev_SessionID = ''S1'', ev_ClientID = ''C1'', ev_DeviceID = ''D1'', ev_FrameNumber = frame,
      ev_Transform = None, ev_PoseData = None, ev_MeshData = None,
      ev_CameraData = Some \<lparr>cam_ImageData = img, cam_Width = 2, cam_Height = 1,
                               cam_Format = ''rgb'', cam_Intrinsics = [0, 0, 0, 0, 0, 0, 0, 0, 0],
                               cam_Distortion = [], cam_Transform = None, cam_Timestamp = 0,
                               cam_Exposure = 0, cam_ISO = 0, cam_FocalLength = 0\<rparr>,
      ev_DepthData = None, ev_PointCloudData = None, ev_LightingData = None,
      ev_Metadata = []\<rparr>"

text \<open>
  The triangle meshes of the end-to-end scenario: vertices \<open>[0,0,0, 1,0,0, 0,1,0]\<close> and
  \<open>[0,0,0, 1,0,0, 0,1,1]\<close> (\<open>1.0\<close> is \<open>0x3FF0000000000000\<close>), faces \<open>[0,1,2]\<close>.
\<close>

definition f64_one :: float64 where
  "f64_one = 0x3FF0000000000000"

definition triangle :: "float64 \<Rightarrow> MeshData" where
  "triangle z =
     \<lparr>mesh_AnchorID = ''A'',
      mesh_Vertices = [0, 0, 0, f64_one, 0, 0, 0, f64_one, z],
      mesh_Faces = [0, 1, 2],
      mesh_Normals = [], mesh_Colors = [], mesh_TextureCoords = [], mesh_Transform = None,
      mesh_Classification = [], mesh_Confidence = 0\<rparr>"

definition mesh_event :: "64 word \<Rightarrow> MeshData \<Rightarrow> SpatialEvent" where
  "mesh_event frame mesh =
     \<lparr>ev_EventID = ''e'', ev_EventType = ''mesh'', ev_Timestamp = 0, ev_ServerTime = 0,
      ev_SessionID = ''S1'', ev_ClientID = ''C1'', ev_DeviceID = ''D1'', ev_FrameNumber = frame,
      ev_Transform = None, ev_PoseData = None, ev_MeshData = Some mesh, ev_CameraData = None,
      ev_DepthData = None, ev_PointCloudData = None, ev_LightingData = None,
      ev_Metadata = []\<rparr>"

definition event1 :: SpatialEvent where "event1 = mesh_event 1 (triangle 0)"
definition event2 :: SpatialEvent where "event2 = mesh_event 2 (triangle 0)"
definition event3 :: SpatialEvent where "event3 = mesh_event 3 (triangle f64_one)"

text \<open>A bucket as the key/value engine keeps it: keys strictly ascending.\<close>

definition bucket_wf :: "'v bucket \<Rightarrow> bool" where
  "bucket_wf b = sorted_wrt (<) (map fst b)"

text \<open>
  The event is addressed at an existing anchor of an existing stag, and the stored
  records carry the ids they are stored under.
\<close>

definition addressed :: "Store \<Rightarrow> SpatialEvent \<Rightarrow> Stag \<Rightarrow> string \<Rightarrow> Anchor \<Rightarrow> bool" where
  "addressed s event stag anchorID anchor =
     (GetStag s (stag_id_of event) = Inr stag
      \<and> stag_ID stag = stag_id_of event
      \<and> target_anchor event = Inr anchorID
      \<and> GetAnchor s (stag_id_of event) anchorID = Inr anchor
      \<and> anc_StagID anchor = stag_id_of event
      \<and> anc_ID anchor = anchorID)"

text \<open>The version that the engine builds for an event at an anchor, and its storage key.\<close>

definition version_for :: "Env \<Rightarrow> SpatialEvent \<Rightarrow> Anchor \<Rightarrow> AnchorVersion" where
  "version_for env event anchor =
     new_version env event (CalculateEventHash event) (anchor_with_signature event anchor)"

definition version_key_for :: "Env \<Rightarrow> SpatialEvent \<Rightarrow> string \<Rightarrow> string" where
  "version_key_for env event anchorID =
     version_key (stag_id_of event) anchorID (''v'' @ show_int (Unix (now env)))"

text \<open>The store after each of the three writes.\<close>

definition after_version :: "Env \<Rightarrow> Store \<Rightarrow> SpatialEvent \<Rightarrow> string \<Rightarrow> Anchor \<Rightarrow> Store" where
  "after_version env s event anchorID anchor =
     s\<lparr>VersionsBucket :=
         bucket_insert (VersionsBucket s) (version_key_for env event anchorID)
           (version_for env event anchor)\<rparr>"

definition after_anchor :: "Env \<Rightarrow> Store \<Rightarrow> SpatialEvent \<Rightarrow> string \<Rightarrow> Anchor \<Rightarrow> Store" where
  "after_anchor env s event anchorID anchor =
     (after_version env s event anchorID anchor)
       \<lparr>AnchorsBucket :=
          bucket_insert (AnchorsBucket s) (anchor_key (stag_id_of event) anchorID)
            (updated_anchor env event (anchor_with_signature event anchor))\<rparr>"

definition after_stats :: "Env \<Rightarrow> Store \<Rightarrow> SpatialEvent \<Rightarrow> string \<Rightarrow> Anchor \<Rightarrow> Stag \<Rightarrow> Store" where
  "after_stats env s event anchorID anchor stag =
     (after_anchor env s event anchorID anchor)
       \<lparr>StagsBucket :=
          bucket_insert (StagsBucket s) (stag_id_of event)
            ((the (bucket_Get (StagsBucket s) (stag_id_of event)))
               \<lparr>stag_Stats := updated_stats env stag event, stag_UpdatedAt := now env\<rparr>)\<rparr>"

text \<open>The stores reached in the scenarios below.\<close>

definition store_camera_1 :: Store where
  "store_camera_1 = ingest [(at_second 1700000001, camera_event 1 [0])] empty_Store"

definition store_events_1_2 :: Store where
  "store_events_1_2 =
     ingest [(at_second 1700000001, event1), (at_second 1700000002, event2)] empty_Store"

text \<open>A clock reading at which the anchor update cannot be committed.\<close>

definition anchor_update_fails_at :: "int \<Rightarrow> Env" where
  "anchor_update_fails_at t = \<lparr>now = t * 1000000000, io_fails = [OpUpdateAnchor]\<rparr>"

text \<open>The version record that the engine stores for \<open>event2\<close>.\<close>

definition version_of_event2 :: AnchorVersion where
  "version_of_event2 =
     \<lparr>ver_VersionID = ''v1700000002'', ver_Hash = ''72e46e4e6041984acd9a32dad2f2c6fe'',
      ver_Timestamp = 0, ver_ChangeType = ''create'', ver_Transform = None,
      ver_MeshData = Some (triangle 0), ver_PoseData = None, ver_CameraData = None,
      ver_DepthData = None, ver_PointCloudData = None, ver_LightingData = None,
      ver_EventID = ''e'', ver_SessionID = ''S1'', ver_ClientID = ''C1'', ver_DeviceID = ''D1'',
      ver_FrameNumber = 2, ver_Metadata = []\<rparr>"


definition store_event1 :: Store where
  "store_event1 = ingest [(at_second 1700000001, event1)] empty_Store"

definition store_event1_twice :: Store where
  "store_event1_twice =
     ingest [(at_second 1700000001, event1), (at_second 1700000002, event1)] empty_Store"

text \<open>
  End-to-end scenario 1: the three mesh events, processed at three different seconds,
  and the same events with the last two processed within one second.
\<close>

definition store_scenario_1 :: Store where
  "store_scenario_1 =
     ingest [(at_second 1700000001, event1), (at_second 1700000002, event2),
             (at_second 1700000003, event3)] empty_Store"

definition store_scenario_1_same_second :: Store where
  "store_scenario_1_same_second =
     ingest [(at_second 1700000001, event1), (at_second 1700000002, event2),
             (at_second 1700000002, event3)] empty_Store"

text \<open>A mesh event that differs from a given event at most in its mesh vertices.\<close>

definition with_vertices :: "SpatialEvent \<Rightarrow> MeshData \<Rightarrow> float64 list \<Rightarrow> SpatialEvent" where
  "with_vertices event mesh vs =
     event\<lparr>ev_EventType := ''mesh'', ev_MeshData := Some (mesh\<lparr>mesh_Vertices := vs\<rparr>)\<rparr>"





text \<open>An id without the separator of the storage keys.\<close>

definition colon_free :: "string \<Rightarrow> bool" where
  "colon_free s = (CHR '':'' \<notin> set s)"

text \<open>The key \<open>k\<close> is neither the prefix \<open>p\<close> nor a key under it.\<close>

definition off_prefix :: "string \<Rightarrow> string \<Rightarrow> bool" where
  "off_prefix p k = (\<forall>r. k \<noteq> p @ r)"

text \<open>
  What is read of an anchor, or of a stag, is the same after an operation as before it.
  An operation that fails leaves the store as it was.
\<close>

definition anchor_unaffected :: "Store \<Rightarrow> string \<Rightarrow> string \<Rightarrow> error + Store \<Rightarrow> bool" where
  "anchor_unaffected s g a result =
     (case result of Inl e \<Rightarrow> True | Inr s' \<Rightarrow> GetAnchor s' g a = GetAnchor s g a)"

definition stag_unaffected :: "Store \<Rightarrow> string \<Rightarrow> error + Store \<Rightarrow> bool" where
  "stag_unaffected s g result =
     (case result of Inl e \<Rightarrow> True | Inr s' \<Rightarrow> GetStag s' g = GetStag s g)"

text \<open>An anchor record with the given ids, and stores that hold such anchors.\<close>

definition anchor_record :: "string \<Rightarrow> string \<Rightarrow> Anchor" where
  "anchor_record stagID anchorID =
     \<lparr>anc_ID = anchorID, anc_StagID = stagID, anc_CurrentHash = ''h'', anc_Versions = [],
      anc_CreatedAt = zero_Time, anc_UpdatedAt = zero_Time, anc_LastSessionID = stagID,
      anc_LastClientID = ''C1'', anc_LastDeviceID = ''D1'', anc_Metadata = []\<rparr>"

definition store_S1_A :: Store where
  "store_S1_A =
     \<lparr>StagsBucket = [(''S1'', fresh_stag (at_second 1) ''S1'')],
      AnchorsBucket = [(''S1:A'', anchor_record ''S1'' ''A'')],
      VersionsBucket = [(''S1:A:v1700000002'', version_of_event2)]\<rparr>"

definition store_S1_A_B :: Store where
  "store_S1_A_B =
     store_S1_A\<lparr>AnchorsBucket :=
       [(''S1:A'', anchor_record ''S1'' ''A''),
        (''S1:B'', (anchor_record ''S1'' ''B'')
                     \<lparr>anc_CreatedAt := 3000000000, anc_UpdatedAt := 3000000000\<rparr>)]\<rparr>"

definition store_S1_S2 :: Store where
  "store_S1_S2 =
     store_S1_A\<lparr>StagsBucket :=
       [(''S1'', fresh_stag (at_second 1) ''S1''),
        (''S2'', (fresh_stag (at_second 3) ''S2'')
                   \<lparr>stag_CreatedAt := 3000000000, stag_UpdatedAt := 3000000000\<rparr>)]\<rparr>"

definition store_ab_c :: Store where
  "store_ab_c =
     empty_Store\<lparr>AnchorsBucket :=
       [(''a:b:c'', (anchor_record ''a:b'' ''c'')
                      \<lparr>anc_CreatedAt := 1000000000, anc_UpdatedAt := 1000000000\<rparr>)]\<rparr>"

section \<open>Verification\<close>

subsection \<open>Bucket facts\<close>

lemma get_insert_same: "bucket_Get (bucket_insert b k v) k = Some v"
  by (induction b) (auto simp: bucket_Get_def)

lemma get_insert_other: "k' \<noteq> k \<Longrightarrow> bucket_Get (bucket_insert b k v) k' = bucket_Get b k'"
  by (induction b) (auto simp: bucket_Get_def)

lemma get_delete_other: "k' \<noteq> k \<Longrightarrow> bucket_Get (bucket_Delete b k) k' = bucket_Get b k'"
  by (induction b) (auto simp: bucket_Get_def bucket_Delete_def)

lemma set_insert_subset: "set (bucket_insert b k v) \<subseteq> insert (k, v) (set b)"
  by (induction b) (auto split: if_splits)

lemma get_in_set: "bucket_Get b k = Some v \<Longrightarrow> (k, v) \<in> set b"
  by (simp add: bucket_Get_def map_of_SomeD)

lemma bucket_Put_Inr: "bucket_Put b k v = Inr b' \<Longrightarrow> b' = bucket_insert b k v"
  by (auto simp: bucket_Put_def split: if_splits)

lemma db_Update_Inr: "db_Update env op body = Inr r \<Longrightarrow> body = Inr r"
  by (auto simp: db_Update_def split: sum.splits if_splits)

subsection \<open>Prefix scans of sorted buckets\<close>

lemma keys_insert: "fst ` set (bucket_insert b k v) = insert k (fst ` set b)"
  by (induction b k v rule: bucket_insert.induct) (simp_all add: insert_commute)

lemma wf_insert: "bucket_wf b \<Longrightarrow> bucket_wf (bucket_insert b k v)"
proof (induction b)
  case Nil
  then show ?case by (simp add: bucket_wf_def)
next
  case (Cons x b)
  obtain k' v' where x: "x = (k', v')" by (cases x)
  from Cons.prems have wf: "bucket_wf b" and lt: "\<forall>y \<in> fst ` set b. k' < y"
    by (auto simp: bucket_wf_def x)
  show ?case
  proof (cases "k = k'")
    case True
    then show ?thesis using Cons.prems by (simp add: x bucket_wf_def)
  next
    case False
    show ?thesis
    proof (cases "k < k'")
      case True
      then show ?thesis using Cons.prems False by (auto simp: x bucket_wf_def)
    next
      case nlt: False
      with False have "k' < k" by auto
      then show ?thesis
        using False nlt Cons.IH[OF wf] lt keys_insert[of b k v]
        by (auto simp: x bucket_wf_def)
    qed
  qed
qed

lemma wf_filter: "bucket_wf b \<Longrightarrow> bucket_wf (filter P b)"
  unfolding bucket_wf_def by (induction b) auto
  
lemma has_prefix_between:
  "p < k1 \<Longrightarrow> k1 \<le> k2 \<Longrightarrow> has_prefix p k2 \<Longrightarrow> has_prefix p k1"
proof (induction p arbitrary: k1 k2)
  case Nil
  then show ?case by (cases k1) (auto simp: has_prefix_def)
next
  case (Cons c p)
  from Cons.prems(3) obtain k2' where k2: "k2 = c # k2'" and h2: "has_prefix p k2'"
    by (cases k2) (auto simp: has_prefix_def)
  from Cons.prems(1) obtain a k1' where k1: "k1 = a # k1'" by (cases k1) auto
  from Cons.prems(1) k1 have "c < a \<or> (c = a \<and> p < k1')" by simp
  moreover from Cons.prems(2) k1 k2 have "a < c \<or> (a = c \<and> k1' \<le> k2')" by auto
  ultimately have "a = c" "p < k1'" "k1' \<le> k2'" by auto
  from Cons.IH[OF this(2,3) h2] show ?case using k1 \<open>a = c\<close> by (simp add: has_prefix_def)
qed

lemma has_prefix_greater: "has_prefix p k \<Longrightarrow> p < k"
proof (induction p arbitrary: k)
  case Nil
  then show ?case by (cases k) (auto simp: has_prefix_def)
next
  case (Cons c p)
  then show ?case by (cases k) (auto simp: has_prefix_def)
qed

lemma scan_char:
  assumes "bucket_wf b"
  shows "cursor_scan b p =
    (if p \<in> fst ` set b then [] else filter (\<lambda>(k, v). has_prefix p k) b)"
  using assms
proof (induction b)
  case Nil
  then show ?case by (simp add: cursor_scan_def)
next
  case (Cons x b)
  obtain k v where x: "x = (k, v)" by (cases x)
  from Cons.prems have wf: "bucket_wf b" and lt: "\<forall>y \<in> fst ` set b. k < y"
    by (auto simp: bucket_wf_def x)
  show ?case
  proof (cases "k < p")
    case True
    then have "\<not> has_prefix p k" using has_prefix_greater[of p k] by auto
    then show ?thesis
      using True Cons.IH[OF wf] by (auto simp: x cursor_scan_def)
  next
    case False
    then have ge: "p \<le> k" by auto
    have drop: "dropWhile (\<lambda>(k, v). k < p) (x # b) = x # b" using False by (simp add: x)
    have rest_gt: "\<forall>y \<in> fst ` set b. p < y" using ge lt by auto
    show ?thesis
    proof (cases "has_prefix p k")
      case True
      have notin: "p \<notin> fst ` set (x # b)" using True rest_gt has_prefix_greater[OF True] by (auto simp: x)
      have dropb: "dropWhile (\<lambda>(k, v). k < p) b = b"
        using rest_gt by (induction b) (auto simp: not_less_iff_gr_or_eq)
      have "p \<notin> fst ` set b" using notin by auto
      then have "takeWhile (\<lambda>(k, v). has_prefix p k) b = filter (\<lambda>(k, v). has_prefix p k) b"
        using Cons.IH[OF wf] dropb by (simp add: cursor_scan_def)
      then show ?thesis using True notin drop by (simp add: cursor_scan_def x del: dropWhile.simps)
    next
      case nh: False
      show ?thesis
      proof (cases "k = p")
        case True
        then show ?thesis using nh drop by (simp add: cursor_scan_def x del: dropWhile.simps)
      next
        case kp: False
        with ge have pk: "p < k" by auto
        have none: "\<forall>y \<in> fst ` set b. \<not> has_prefix p y"
        proof
          fix y assume y: "y \<in> fst ` set b"
          then have "k \<le> y" using lt by auto
          then show "\<not> has_prefix p y" using has_prefix_between[OF pk] nh by blast
        qed
        then have "filter (\<lambda>(k, v). has_prefix p k) b = []"
          by (auto simp: filter_empty_conv)
        moreover have "p \<notin> fst ` set (x # b)" using kp rest_gt by (auto simp: x)
        ultimately show ?thesis using nh drop by (simp add: cursor_scan_def x del: dropWhile.simps)
      qed
    qed
  qed
qed

lemma filter_insert:
  assumes "bucket_wf b"
  shows "filter (\<lambda>(k, v). P k) (bucket_insert b k v) =
           (if P k then bucket_insert (filter (\<lambda>(k, v). P k) b) k v else filter (\<lambda>(k, v). P k) b)"
  using assms
proof (induction b)
  case Nil
  then show ?case by simp
next
  case (Cons x b)
  obtain k' v' where x: "x = (k', v')" by (cases x)
  from Cons.prems have wf: "bucket_wf b" and lt: "\<forall>y \<in> fst ` set b. k' < y"
    by (auto simp: bucket_wf_def x)
  have ins_hd: "k < k' \<Longrightarrow> bucket_insert (filter (\<lambda>(k, v). P k) b) k v = (k, v) # filter (\<lambda>(k, v). P k) b"
  proof -
    assume kk: "k < k'"
    have "\<forall>y \<in> fst ` set (filter (\<lambda>(k, v). P k) b). k < y" using lt kk by auto
    then show ?thesis by (cases "filter (\<lambda>(k, v). P k) b") auto
  qed
  have ins_eq: "k = k' \<Longrightarrow> bucket_insert (filter (\<lambda>(k, v). P k) b) k v = (k, v) # filter (\<lambda>(k, v). P k) b"
  proof -
    assume kk: "k = k'"
    have "\<forall>y \<in> fst ` set (filter (\<lambda>(k, v). P k) b). k < y" using lt kk by auto
    then show ?thesis by (cases "filter (\<lambda>(k, v). P k) b") auto
  qed
  show ?case
    using Cons.IH[OF wf] ins_hd ins_eq by (auto simp: x)
qed

subsection \<open>Effects of the write operations\<close>

lemma CreateAnchor_Inr:
  assumes "CreateAnchor env s a = Inr (s', a')"
  shows "a' = a\<lparr>anc_CreatedAt := now env, anc_UpdatedAt := now env\<rparr>"
    and "s' = s\<lparr>AnchorsBucket := bucket_insert (AnchorsBucket s) (anchor_key (anc_StagID a) (anc_ID a)) a'\<rparr>"
    and "bucket_Get (AnchorsBucket s) (anchor_key (anc_StagID a) (anc_ID a)) = None"
  using db_Update_Inr[OF assms[unfolded CreateAnchor_def]]
  by (auto simp: Let_def dest!: bucket_Put_Inr split: if_splits sum.splits)

lemma UpdateAnchor_Inr:
  assumes "UpdateAnchor env s a = Inr (s', a')"
  shows "a' = a\<lparr>anc_UpdatedAt := now env\<rparr>"
    and "s' = s\<lparr>AnchorsBucket := bucket_insert (AnchorsBucket s) (anchor_key (anc_StagID a) (anc_ID a)) a'\<rparr>"
  using db_Update_Inr[OF assms[unfolded UpdateAnchor_def]]
  by (auto simp: Let_def dest!: bucket_Put_Inr split: if_splits sum.splits)

lemma AddAnchorVersion_Inr:
  assumes "AddAnchorVersion env s g a v = Inr s'"
  shows "s' = s\<lparr>VersionsBucket := bucket_insert (VersionsBucket s) (version_key g a (ver_VersionID v)) v\<rparr>"
  using db_Update_Inr[OF assms[unfolded AddAnchorVersion_def]]
  by (auto dest!: bucket_Put_Inr split: sum.splits)

lemma UpdateStagStats_Inr:
  assumes "UpdateStagStats env s g st = Inr s'"
  shows "\<exists>stag. bucket_Get (StagsBucket s) g = Some stag \<and>
           s' = s\<lparr>StagsBucket := bucket_insert (StagsBucket s) g (stag\<lparr>stag_Stats := st, stag_UpdatedAt := now env\<rparr>)\<rparr>"
  using db_Update_Inr[OF assms[unfolded UpdateStagStats_def]]
  by (auto dest!: bucket_Put_Inr split: option.splits sum.splits)

lemma CreateStag_Inr:
  assumes "CreateStag env s stag = Inr (s', stag')"
  shows "stag' = stag\<lparr>stag_CreatedAt := now env, stag_UpdatedAt := now env\<rparr>"
    and "s' = s\<lparr>StagsBucket := bucket_insert (StagsBucket s) (stag_ID stag) stag'\<rparr>"
    and "bucket_Get (StagsBucket s) (stag_ID stag) = None"
  using db_Update_Inr[OF assms[unfolded CreateStag_def]]
  by (auto simp: Let_def dest!: bucket_Put_Inr split: if_splits sum.splits)

subsection \<open>The engine on an existing anchor\<close>

lemma processEvent_existing_stag:
  assumes "GetStag s (stag_id_of event) = Inr stag" "target_anchor event = Inr aid"
  shows "processEvent env s event = processAnchorEvent env s stag aid event"
  using assms by (simp add: processEvent_def stag_id_of_def)

lemma processAnchorEvent_existing:
  assumes "GetAnchor s (stag_ID stag) aid = Inr anchor"
  shows "processAnchorEvent env s stag aid event =
           (if is_duplicate event anchor then (s, None)
            else append_version env s stag aid event (CalculateEventHash event)
                   (anchor_with_signature event anchor))"
  using assms
  by (simp add: processAnchorEvent_def get_or_create_anchor_def is_duplicate_def
      anchor_with_signature_def Let_def)

lemma GetStag_stag_ID:
  "GetStag s g = Inr stag \<Longrightarrow> bucket_Get (StagsBucket s) g \<noteq> None"
  by (auto simp: GetStag_def split: option.splits)

lemma anchor_with_signature_ids [simp]:
  "anc_ID (anchor_with_signature event a) = anc_ID a"
  "anc_StagID (anchor_with_signature event a) = anc_StagID a"
  "anc_Versions (anchor_with_signature event a) = anc_Versions a"
  "anc_CurrentHash (anchor_with_signature event a) = anc_CurrentHash a"
  by (simp_all add: anchor_with_signature_def)

text \<open>The three writes of \<open>append_version\<close>, and what each failure leaves behind.\<close>

lemma AddAnchorVersion_eq:
  "AddAnchorVersion env s g a v =
     (if version_key g a (ver_VersionID v) = [] then Inl ''key required''
      else if length (version_key g a (ver_VersionID v)) > 32768 then Inl ''key too large''
      else if OpAddAnchorVersion \<in> set (io_fails env) then Inl ''commit failed''
      else Inr (s\<lparr>VersionsBucket := bucket_insert (VersionsBucket s) (version_key g a (ver_VersionID v)) v\<rparr>))"
  by (simp add: AddAnchorVersion_def db_Update_def bucket_Put_def)

lemma version_key_nonempty [simp]: "version_key g a v \<noteq> []"
  by (simp add: version_key_def)

lemma anchor_key_nonempty [simp]: "anchor_key g a \<noteq> []"
  by (simp add: anchor_key_def)

lemma UpdateAnchor_eq:
  assumes "bucket_Get (AnchorsBucket s) (anchor_key (anc_StagID a) (anc_ID a)) \<noteq> None"
    "length (anchor_key (anc_StagID a) (anc_ID a)) \<le> 32768"
  shows "UpdateAnchor env s a =
     (if OpUpdateAnchor \<in> set (io_fails env) then Inl ''commit failed''
      else Inr (s\<lparr>AnchorsBucket := bucket_insert (AnchorsBucket s)
                    (anchor_key (anc_StagID a) (anc_ID a)) (a\<lparr>anc_UpdatedAt := now env\<rparr>)\<rparr>,
                a\<lparr>anc_UpdatedAt := now env\<rparr>))"
  using assms by (auto simp: UpdateAnchor_def db_Update_def bucket_Put_def Let_def)

lemma UpdateStagStats_eq:
  assumes "bucket_Get (StagsBucket s) g = Some stag" "g \<noteq> []" "length g \<le> 32768"
  shows "UpdateStagStats env s g st =
     (if OpUpdateStagStats \<in> set (io_fails env) then Inl ''commit failed''
      else Inr (s\<lparr>StagsBucket := bucket_insert (StagsBucket s) g
                    (stag\<lparr>stag_Stats := st, stag_UpdatedAt := now env\<rparr>)\<rparr>))"
  using assms by (auto simp: UpdateStagStats_def db_Update_def bucket_Put_def)

lemma GetAnchor_stored:
  "GetAnchor s g a = Inr anchor \<Longrightarrow> bucket_Get (AnchorsBucket s) (anchor_key g a) \<noteq> None"
  by (auto simp: GetAnchor_def split: option.splits)

subsection \<open>The three writes of one event\<close>

lemma stag_id_of_nonempty [simp]: "stag_id_of event \<noteq> []"
  by (simp add: stag_id_of_def)

lemma version_key_for_nonempty [simp]: "version_key_for env event aid \<noteq> []"
  by (simp add: version_key_for_def)

lemma key_lengths:
  "length (anchor_key (stag_id_of event) a) \<le> length (version_key_for env event a)"
  "length (stag_id_of event) \<le> length (version_key_for env event a)"
  by (simp_all add: anchor_key_def version_key_def version_key_for_def)

lemma GetStag_record:
  assumes "GetStag s g = Inr stag"
  obtains st0 where "bucket_Get (StagsBucket s) g = Some st0"
    "stag = st0\<lparr>stag_Anchors := anchors_map (ListAnchors s g)\<rparr>"
  using assms by (auto simp: GetStag_def split: option.splits)

lemma processEvent_addressed:
  assumes "addressed s event stag aid anchor"
  shows "processEvent env s event =
           (if is_duplicate event anchor then (s, None)
            else append_version env s stag aid event (CalculateEventHash event)
                   (anchor_with_signature event anchor))"
  using assms processEvent_existing_stag[of s event stag aid env]
    processAnchorEvent_existing[of s stag aid anchor env event]
  by (simp add: addressed_def)

lemma append_version_addressed:
  assumes ad: "addressed s event stag aid anchor"
    and len: "length (version_key_for env event aid) \<le> 32768"
  shows "append_version env s stag aid event (CalculateEventHash event)
           (anchor_with_signature event anchor) =
     (if OpAddAnchorVersion \<in> set (io_fails env)
        then (s, Some ''failed to add anchor version: commit failed'')
      else if OpUpdateAnchor \<in> set (io_fails env)
        then (after_version env s event aid anchor, Some ''failed to update anchor: commit failed'')
      else if OpUpdateStagStats \<in> set (io_fails env)
        then (after_anchor env s event aid anchor, Some ''failed to update stag stats: commit failed'')
      else (after_stats env s event aid anchor stag, None))"
proof -
  let ?g = "stag_id_of event"
  let ?a1 = "anchor_with_signature event anchor"
  let ?v = "new_version env event (CalculateEventHash event) ?a1"
  let ?k = "version_key ?g aid (ver_VersionID ?v)"
  from ad have g: "stag_ID stag = ?g" and ids: "anc_StagID anchor = ?g" "anc_ID anchor = aid"
    and ga: "GetAnchor s ?g aid = Inr anchor" and gs: "GetStag s ?g = Inr stag"
    by (simp_all add: addressed_def)
  have vid: "ver_VersionID ?v = ''v'' @ show_int (Unix (now env))" by (simp add: new_version_def)
  have k: "?k = version_key_for env event aid" by (simp add: vid version_key_for_def)
  have add: "AddAnchorVersion env s ?g aid ?v =
      (if OpAddAnchorVersion \<in> set (io_fails env) then Inl ''commit failed''
       else Inr (after_version env s event aid anchor))"
    using len by (simp add: AddAnchorVersion_eq k after_version_def version_for_def)
  let ?a2 = "?a1\<lparr>anc_CurrentHash := CalculateEventHash event,
               anc_LastSessionID := ev_SessionID event, anc_LastClientID := ev_ClientID event,
               anc_LastDeviceID := ev_DeviceID event, anc_Versions := anc_Versions anchor @ [?v]\<rparr>"
  have a2: "?a2\<lparr>anc_UpdatedAt := now env\<rparr> = updated_anchor env event ?a1"
    by (simp add: updated_anchor_def)
  have stored: "bucket_Get (AnchorsBucket (after_version env s event aid anchor)) (anchor_key ?g aid) \<noteq> None"
    using GetAnchor_stored[OF ga] by (simp add: after_version_def)
  have alen: "length (anchor_key ?g aid) \<le> 32768"
    using len key_lengths(1)[of event aid env] by linarith
  have upd: "UpdateAnchor env (after_version env s event aid anchor) ?a2 =
      (if OpUpdateAnchor \<in> set (io_fails env) then Inl ''commit failed''
       else Inr (after_anchor env s event aid anchor, updated_anchor env event ?a1))"
    using UpdateAnchor_eq[of "after_version env s event aid anchor" ?a2 env] stored alen ids a2
    by (simp add: after_anchor_def after_version_def)
  from gs obtain st0 where st0: "bucket_Get (StagsBucket s) ?g = Some st0"
    by (rule GetStag_record)
  have glen: "length ?g \<le> 32768"
    using len key_lengths(2)[of event env aid] by linarith
  have sts: "UpdateStagStats env (after_anchor env s event aid anchor) ?g (updated_stats env stag event) =
      (if OpUpdateStagStats \<in> set (io_fails env) then Inl ''commit failed''
       else Inr (after_stats env s event aid anchor stag))"
    using UpdateStagStats_eq[of "after_anchor env s event aid anchor" ?g st0 env] st0 glen
    by (simp add: after_stats_def after_anchor_def after_version_def)
  show ?thesis
    unfolding append_version_def Let_def g add
    by (simp add: upd sts)
qed

subsection \<open>Sampling of large meshes\<close>


lemma length_f64_bytes [simp]: "length (f64_bytes v) = 8"
  by (simp add: f64_bytes_def le_bytes_def)













subsection \<open>Storage keys of ids without the separator\<close>

lemma colon_split:
  assumes "colon_free g1" "colon_free g2" "g1 @ CHR '':'' # r1 = g2 @ CHR '':'' # r2"
  shows "g1 = g2 \<and> r1 = r2"
  using assms
proof (induction g1 arbitrary: g2)
  case Nil
  then show ?case by (cases g2) (auto simp: colon_free_def)
next
  case (Cons c g1)
  show ?case
  proof (cases g2)
    case Nil
    then show ?thesis using Cons.prems by (auto simp: colon_free_def)
  next
    case (Cons d g2')
    then show ?thesis using Cons.IH[of g2'] Cons.prems by (auto simp: colon_free_def)
  qed
qed

lemma anchor_key_inj:
  assumes "colon_free g1" "colon_free g2" "anchor_key g1 a1 = anchor_key g2 a2"
  shows "g1 = g2 \<and> a1 = a2"
  using colon_split[OF assms(1,2), of a1 a2] assms(3) by (simp add: anchor_key_def)

lemma version_key_inj:
  assumes "colon_free g1" "colon_free g2" "colon_free a1" "colon_free a2"
    "version_key g1 a1 v1 = version_key g2 a2 v2"
  shows "g1 = g2 \<and> a1 = a2 \<and> v1 = v2"
proof -
  from assms(5) have "g1 @ CHR '':'' # (a1 @ CHR '':'' # v1) = g2 @ CHR '':'' # (a2 @ CHR '':'' # v2)"
    by (simp add: version_key_def)
  from colon_split[OF assms(1,2) this] have g: "g1 = g2" and "a1 @ CHR '':'' # v1 = a2 @ CHR '':'' # v2"
    by simp_all
  from colon_split[OF assms(3,4) this(2)] g show ?thesis by simp
qed

text \<open>A key under one graph's prefix is never a key of, or under, another graph's prefix.\<close>

lemma other_graph_key:
  assumes "colon_free g1" "colon_free g2" "g1 \<noteq> g2"
  shows "g1 @ '':'' @ x \<noteq> g2 @ '':'' @ y"
  using colon_split[OF assms(1,2), of x y] assms(3) by auto

lemma other_anchor_key:
  assumes "colon_free g1" "colon_free g2" "colon_free a1" "colon_free a2" "(g1, a1) \<noteq> (g2, a2)"
  shows "g1 @ '':'' @ a1 @ '':'' @ x \<noteq> g2 @ '':'' @ a2 @ '':'' @ y"
proof
  assume "g1 @ '':'' @ a1 @ '':'' @ x = g2 @ '':'' @ a2 @ '':'' @ y"
  then have "version_key g1 a1 x = version_key g2 a2 y" by (simp add: version_key_def)
  from version_key_inj[OF assms(1-4) this] assms(5) show False by simp
qed

lemma has_prefix_iff: "has_prefix p k = (\<exists>r. r \<noteq> [] \<and> k = p @ r)"
proof
  assume h: "has_prefix p k"
  then have "k = p @ drop (length p) k" "drop (length p) k \<noteq> []"
    by (auto simp: has_prefix_def) (metis append_take_drop_id)
  then show "\<exists>r. r \<noteq> [] \<and> k = p @ r" by blast
next
  assume "\<exists>r. r \<noteq> [] \<and> k = p @ r"
  then show "has_prefix p k" by (auto simp: has_prefix_def)
qed

lemma off_prefixD: "off_prefix p k \<Longrightarrow> k \<noteq> p \<and> \<not> has_prefix p k"
  by (auto simp: off_prefix_def has_prefix_iff)

lemma scan_insert_other:
  assumes "bucket_wf b" "off_prefix p k"
  shows "cursor_scan (bucket_insert b k v) p = cursor_scan b p"
proof -
  have k: "k \<noteq> p" "\<not> has_prefix p k" using off_prefixD[OF assms(2)] by simp_all
  have "p \<in> fst ` set (bucket_insert b k v) \<longleftrightarrow> p \<in> fst ` set b"
    using k(1) by (auto simp: keys_insert)
  then show ?thesis
    using scan_char[OF wf_insert[OF assms(1)], of k v p] scan_char[OF assms(1), of p]
      filter_insert[OF assms(1), of "has_prefix p" k v] k(2)
    by simp
qed

lemma wf_delete: "bucket_wf b \<Longrightarrow> bucket_wf (bucket_Delete b k)"
  by (simp add: bucket_Delete_def wf_filter)

lemma scan_delete_other:
  assumes "bucket_wf b" "off_prefix p k"
  shows "cursor_scan (bucket_Delete b k) p = cursor_scan b p"
proof -
  have k: "k \<noteq> p" "\<not> has_prefix p k" using off_prefixD[OF assms(2)] by simp_all
  have keys: "p \<in> fst ` set (bucket_Delete b k) \<longleftrightarrow> p \<in> fst ` set b"
    using k(1) by (force simp: bucket_Delete_def)
  have "filter (\<lambda>(k', v). has_prefix p k') (bucket_Delete b k) = filter (\<lambda>(k', v). has_prefix p k') b"
    using k(2) unfolding bucket_Delete_def filter_filter by (intro filter_cong) auto
  then show ?thesis
    using scan_char[OF wf_delete[OF assms(1)], of k p] scan_char[OF assms(1), of p] keys
    by simp
qed

lemma scan_has_prefix: "(k, v) \<in> set (cursor_scan b p) \<Longrightarrow> has_prefix p k"
  unfolding cursor_scan_def by (auto dest: set_takeWhileD)

lemma fold_delete_other:
  assumes "bucket_wf b" "\<forall>k \<in> set ks. off_prefix p k"
  shows "cursor_scan (fold (\<lambda>k b. bucket_Delete b k) ks b) p = cursor_scan b p
         \<and> bucket_wf (fold (\<lambda>k b. bucket_Delete b k) ks b)"
  using assms
proof (induction ks arbitrary: b)
  case Nil
  then show ?case by simp
next
  case (Cons k ks)
  have "bucket_wf (bucket_Delete b k)" using Cons.prems(1) by (rule wf_delete)
  from Cons.IH[OF this] Cons.prems show ?case
    by (simp add: scan_delete_other)
qed

lemma fold_delete_get:
  assumes "k' \<notin> set ks"
  shows "bucket_Get (fold (\<lambda>k b. bucket_Delete b k) ks b) k' = bucket_Get b k'"
  using assms by (induction ks arbitrary: b) (simp_all add: get_delete_other)

lemma delete_scanned_keys:
  "delete_scanned passed b q =
     fold (\<lambda>k b. bucket_Delete b k)
       (map fst (filter (\<lambda>(k, v). k \<notin> set passed) (cursor_scan b q))) b"
  by (simp add: delete_scanned_def fold_map comp_def case_prod_unfold)

lemma delete_scanned_other:
  assumes "bucket_wf b" "\<forall>k. has_prefix q k \<longrightarrow> off_prefix p k"
  shows "cursor_scan (delete_scanned passed b q) p = cursor_scan b p
         \<and> bucket_wf (delete_scanned passed b q)"
  unfolding delete_scanned_keys
proof (rule fold_delete_other[OF assms(1)])
  show "\<forall>k \<in> set (map fst (filter (\<lambda>(k, v). k \<notin> set passed) (cursor_scan b q))). off_prefix p k"
    using assms(2) scan_has_prefix[of _ _ b q] by auto
qed

lemma fold_delete_scanned_other:
  assumes "bucket_wf b" "\<forall>k \<in> set ks. \<forall>k'. has_prefix (pfx k) k' \<longrightarrow> off_prefix p k'"
  shows "cursor_scan (fold (\<lambda>k b. delete_scanned passed b (pfx k)) ks b) p = cursor_scan b p"
  using assms
proof (induction ks arbitrary: b)
  case Nil
  then show ?case by simp
next
  case (Cons k ks)
  have step: "cursor_scan (delete_scanned passed b (pfx k)) p = cursor_scan b p"
    "bucket_wf (delete_scanned passed b (pfx k))"
    using delete_scanned_other[OF Cons.prems(1), of "pfx k" p passed] Cons.prems(2) by simp_all
  from Cons.IH[OF step(2)] Cons.prems(2) step(1) show ?case by simp
qed


lemma GetAnchor_cong:
  assumes "bucket_Get (AnchorsBucket s') (anchor_key g a) = bucket_Get (AnchorsBucket s) (anchor_key g a)"
    "cursor_scan (VersionsBucket s') (g @ '':'' @ a @ '':'')
       = cursor_scan (VersionsBucket s) (g @ '':'' @ a @ '':'')"
  shows "GetAnchor s' g a = GetAnchor s g a"
proof -
  have v: "GetAnchorVersions s' g a = GetAnchorVersions s g a"
    unfolding GetAnchorVersions_def assms(2) ..
  show ?thesis unfolding GetAnchor_def v assms(1) ..
qed

lemma GetStag_cong:
  assumes "bucket_Get (StagsBucket s') g = bucket_Get (StagsBucket s) g"
    "cursor_scan (AnchorsBucket s') (g @ '':'') = cursor_scan (AnchorsBucket s) (g @ '':'')"
    "\<And>x. cursor_scan (VersionsBucket s') (g @ '':'' @ x @ '':'')
           = cursor_scan (VersionsBucket s) (g @ '':'' @ x @ '':'')"
  shows "GetStag s' g = GetStag s g"
proof -
  have v: "GetAnchorVersions s' g x = GetAnchorVersions s g x" for x
    unfolding GetAnchorVersions_def assms(3) ..
  have l: "ListAnchors s' g = ListAnchors s g"
    unfolding ListAnchors_def v assms(2) ..
  show ?thesis unfolding GetStag_def l assms(1) ..
qed

lemma other_anchor_off_prefix:
  assumes "colon_free g1" "colon_free g2" "colon_free a1" "colon_free a2" "(g1, a1) \<noteq> (g2, a2)"
  shows "off_prefix (g2 @ '':'' @ a2 @ '':'') (version_key g1 a1 vid)"
    and "has_prefix (g1 @ '':'' @ a1 @ '':'') k \<Longrightarrow> off_prefix (g2 @ '':'' @ a2 @ '':'') k"
proof -
  show "off_prefix (g2 @ '':'' @ a2 @ '':'') (version_key g1 a1 vid)"
    unfolding off_prefix_def version_key_def
    using other_anchor_key[OF assms] by simp
  assume "has_prefix (g1 @ '':'' @ a1 @ '':'') k"
  then obtain r where "k = g1 @ '':'' @ a1 @ '':'' @ r" by (auto simp: has_prefix_iff)
  then show "off_prefix (g2 @ '':'' @ a2 @ '':'') k"
    unfolding off_prefix_def using other_anchor_key[OF assms] by simp
qed

lemma other_graph_off_prefix:
  assumes "colon_free g1" "colon_free g2" "g1 \<noteq> g2" "has_prefix (g1 @ '':'' @ x) k"
  shows "off_prefix (g2 @ '':'' @ y) k"
proof -
  from assms(4) obtain r where "k = g1 @ '':'' @ (x @ r)" by (auto simp: has_prefix_iff)
  then show ?thesis
    unfolding off_prefix_def using other_graph_key[OF assms(1-3)] by simp
qed

lemma anchor_ops_leave_other_anchor:
  assumes cf: "colon_free g1" "colon_free g2" "colon_free a1" "colon_free a2"
    and ne: "(g1, a1) \<noteq> (g2, a2)"
    and wf: "bucket_wf (VersionsBucket s)"
    and x: "anc_StagID x = g1" "anc_ID x = a1"
  shows "anchor_unaffected s g2 a2 (map_sum id fst (CreateAnchor env s x))"
    and "anchor_unaffected s g2 a2 (map_sum id fst (UpdateAnchor env s x))"
    and "anchor_unaffected s g2 a2 (AddAnchorVersion env s g1 a1 v)"
    and "anchor_unaffected s g2 a2 (DeleteAnchor env passed s g1 a1)"
proof -
  have key: "anchor_key g2 a2 \<noteq> anchor_key g1 a1"
    using anchor_key_inj[OF cf(1,2), of a1 a2] ne by auto
  show "anchor_unaffected s g2 a2 (map_sum id fst (CreateAnchor env s x))"
  proof (cases "CreateAnchor env s x")
    case (Inl e)
    then show ?thesis by (simp add: anchor_unaffected_def)
  next
    case (Inr r)
    obtain s' x' where r: "r = (s', x')" by (cases r)
    from CreateAnchor_Inr(2)[OF Inr[unfolded r]] x key
    have "GetAnchor s' g2 a2 = GetAnchor s g2 a2"
      by (intro GetAnchor_cong) (simp_all add: get_insert_other)
    then show ?thesis by (simp add: anchor_unaffected_def Inr r)
  qed
  show "anchor_unaffected s g2 a2 (map_sum id fst (UpdateAnchor env s x))"
  proof (cases "UpdateAnchor env s x")
    case (Inl e)
    then show ?thesis by (simp add: anchor_unaffected_def)
  next
    case (Inr r)
    obtain s' x' where r: "r = (s', x')" by (cases r)
    from UpdateAnchor_Inr(2)[OF Inr[unfolded r]] x key
    have "GetAnchor s' g2 a2 = GetAnchor s g2 a2"
      by (intro GetAnchor_cong) (simp_all add: get_insert_other)
    then show ?thesis by (simp add: anchor_unaffected_def Inr r)
  qed
  show "anchor_unaffected s g2 a2 (AddAnchorVersion env s g1 a1 v)"
  proof (cases "AddAnchorVersion env s g1 a1 v")
    case (Inl e)
    then show ?thesis by (simp add: anchor_unaffected_def)
  next
    case (Inr s')
    note s' = AddAnchorVersion_Inr[OF Inr]
    have scan: "cursor_scan (bucket_insert (VersionsBucket s) (version_key g1 a1 (ver_VersionID v)) v)
                  (g2 @ '':'' @ a2 @ '':'')
                = cursor_scan (VersionsBucket s) (g2 @ '':'' @ a2 @ '':'')"
      by (rule scan_insert_other[OF wf other_anchor_off_prefix(1)[OF cf ne]])
    have "GetAnchor s' g2 a2 = GetAnchor s g2 a2"
    proof (rule GetAnchor_cong)
      show "bucket_Get (AnchorsBucket s') (anchor_key g2 a2) = bucket_Get (AnchorsBucket s) (anchor_key g2 a2)"
        by (simp add: s')
      show "cursor_scan (VersionsBucket s') (g2 @ '':'' @ a2 @ '':'')
              = cursor_scan (VersionsBucket s) (g2 @ '':'' @ a2 @ '':'')"
        using scan by (simp add: s')
    qed
    then show ?thesis by (simp add: anchor_unaffected_def Inr)
  qed
  show "anchor_unaffected s g2 a2 (DeleteAnchor env passed s g1 a1)"
  proof (cases "DeleteAnchor env passed s g1 a1")
    case (Inl e)
    then show ?thesis by (simp add: anchor_unaffected_def)
  next
    case (Inr s')
    from db_Update_Inr[OF Inr[unfolded DeleteAnchor_def]]
    have s': "s' = s\<lparr>VersionsBucket :=
                 delete_scanned passed (VersionsBucket s) (g1 @ '':'' @ a1 @ '':''),
              AnchorsBucket := bucket_Delete (AnchorsBucket s) (anchor_key g1 a1)\<rparr>"
      by simp
    have scan: "cursor_scan (delete_scanned passed (VersionsBucket s) (g1 @ '':'' @ a1 @ '':''))
                  (g2 @ '':'' @ a2 @ '':'')
                = cursor_scan (VersionsBucket s) (g2 @ '':'' @ a2 @ '':'')"
      using delete_scanned_other[OF wf, of "g1 @ '':'' @ a1 @ '':''" "g2 @ '':'' @ a2 @ '':''" passed]
        other_anchor_off_prefix(2)[OF cf ne]
      by blast
    have "GetAnchor s' g2 a2 = GetAnchor s g2 a2"
    proof (rule GetAnchor_cong)
      show "bucket_Get (AnchorsBucket s') (anchor_key g2 a2) = bucket_Get (AnchorsBucket s) (anchor_key g2 a2)"
        by (simp add: s' get_delete_other[OF key])
      show "cursor_scan (VersionsBucket s') (g2 @ '':'' @ a2 @ '':'')
              = cursor_scan (VersionsBucket s) (g2 @ '':'' @ a2 @ '':'')"
        using scan by (simp add: s')
    qed
    then show ?thesis by (simp add: anchor_unaffected_def Inr)
  qed
qed

lemma UpdateStag_Inr:
  assumes "UpdateStag env s stag = Inr (s', stag')"
  shows "s' = s\<lparr>StagsBucket := bucket_insert (StagsBucket s) (stag_ID stag) stag'\<rparr>"
  using db_Update_Inr[OF assms[unfolded UpdateStag_def]]
  by (auto simp: Let_def dest!: bucket_Put_Inr split: if_splits sum.splits)

lemma stag_ops_leave_other_stag:
  assumes cf: "colon_free g1" "colon_free g2"
    and ne: "g1 \<noteq> g2"
    and wf: "bucket_wf (AnchorsBucket s)" "bucket_wf (VersionsBucket s)"
    and st: "stag_ID st = g1"
  shows "stag_unaffected s g2 (map_sum id fst (CreateStag env s st))"
    and "stag_unaffected s g2 (map_sum id fst (UpdateStag env s st))"
    and "stag_unaffected s g2 (UpdateStagStats env s g1 stats)"
    and "stag_unaffected s g2 (DeleteStag env passed_anchors passed_versions s g1)"
proof -
  have ne': "g2 \<noteq> g1" using ne by simp
  show "stag_unaffected s g2 (map_sum id fst (CreateStag env s st))"
  proof (cases "CreateStag env s st")
    case (Inl e)
    then show ?thesis by (simp add: stag_unaffected_def)
  next
    case (Inr r)
    obtain s' st' where r: "r = (s', st')" by (cases r)
    from CreateStag_Inr(2)[OF Inr[unfolded r]] st ne'
    have "GetStag s' g2 = GetStag s g2"
      by (intro GetStag_cong) (simp_all add: get_insert_other)
    then show ?thesis by (simp add: stag_unaffected_def Inr r)
  qed
  show "stag_unaffected s g2 (map_sum id fst (UpdateStag env s st))"
  proof (cases "UpdateStag env s st")
    case (Inl e)
    then show ?thesis by (simp add: stag_unaffected_def)
  next
    case (Inr r)
    obtain s' st' where r: "r = (s', st')" by (cases r)
    from UpdateStag_Inr[OF Inr[unfolded r]] st ne'
    have "GetStag s' g2 = GetStag s g2"
      by (intro GetStag_cong) (simp_all add: get_insert_other)
    then show ?thesis by (simp add: stag_unaffected_def Inr r)
  qed
  show "stag_unaffected s g2 (UpdateStagStats env s g1 stats)"
  proof (cases "UpdateStagStats env s g1 stats")
    case (Inl e)
    then show ?thesis by (simp add: stag_unaffected_def)
  next
    case (Inr s')
    from UpdateStagStats_Inr[OF Inr] obtain stag where
      "s' = s\<lparr>StagsBucket := bucket_insert (StagsBucket s) g1
                 (stag\<lparr>stag_Stats := stats, stag_UpdatedAt := now env\<rparr>)\<rparr>"
      by blast
    then have "GetStag s' g2 = GetStag s g2" using ne'
      by (intro GetStag_cong) (simp_all add: get_insert_other)
    then show ?thesis by (simp add: stag_unaffected_def Inr)
  qed
  show "stag_unaffected s g2 (DeleteStag env passed_anchors passed_versions s g1)"
  proof (cases "DeleteStag env passed_anchors passed_versions s g1")
    case (Inl e)
    then show ?thesis by (simp add: stag_unaffected_def)
  next
    case (Inr s')
    define visited where "visited = filter (\<lambda>k. k \<notin> set passed_anchors)
                        (map fst (cursor_scan (AnchorsBucket s) (g1 @ '':'')))"
    define pfx where "pfx = (\<lambda>k. g1 @ '':'' @ drop (length (g1 @ '':'')) k @ '':'')"
    from db_Update_Inr[OF Inr[unfolded DeleteStag_def]]
    have s': "s' = s\<lparr>VersionsBucket :=
                     fold (\<lambda>k b. delete_scanned passed_versions b (pfx k)) visited (VersionsBucket s),
                   AnchorsBucket := fold (\<lambda>k b. bucket_Delete b k) visited (AnchorsBucket s),
                   StagsBucket := bucket_Delete (StagsBucket s) g1\<rparr>"
      by (simp add: Let_def visited_def pfx_def)
    have vis: "\<forall>k \<in> set visited. has_prefix (g1 @ '':'' @ []) k"
      using scan_has_prefix[of _ _ "AnchorsBucket s" "g1 @ '':''"] by (auto simp: visited_def)
    have anchors: "cursor_scan (fold (\<lambda>k b. bucket_Delete b k) visited (AnchorsBucket s)) (g2 @ '':'')
                     = cursor_scan (AnchorsBucket s) (g2 @ '':'')"
    proof -
      have "\<forall>k \<in> set visited. off_prefix (g2 @ '':'' @ []) k"
        using vis other_graph_off_prefix[OF cf ne] by blast
      then show ?thesis using fold_delete_other[OF wf(1), of visited "g2 @ '':''"] by simp
    qed
    have versions: "cursor_scan (fold (\<lambda>k b. delete_scanned passed_versions b (pfx k)) visited
                                  (VersionsBucket s)) (g2 @ '':'' @ y @ '':'')
                     = cursor_scan (VersionsBucket s) (g2 @ '':'' @ y @ '':'')" for y
    proof (rule fold_delete_scanned_other[OF wf(2)], intro ballI allI impI)
      fix k k' assume "has_prefix (pfx k) k'"
      then have "has_prefix (g1 @ '':'' @ (drop (length (g1 @ '':'')) k @ '':'')) k'"
        by (simp add: pfx_def)
      from other_graph_off_prefix[OF cf ne this, of "y @ '':''"]
      show "off_prefix (g2 @ '':'' @ y @ '':'') k'" by simp
    qed
    have "GetStag s' g2 = GetStag s g2"
    proof (rule GetStag_cong)
      show "bucket_Get (StagsBucket s') g2 = bucket_Get (StagsBucket s) g2"
        by (simp add: s' get_delete_other[OF ne'])
      show "cursor_scan (AnchorsBucket s') (g2 @ '':'') = cursor_scan (AnchorsBucket s) (g2 @ '':'')"
        using anchors by (simp add: s')
      show "cursor_scan (VersionsBucket s') (g2 @ '':'' @ x @ '':'')
              = cursor_scan (VersionsBucket s) (g2 @ '':'' @ x @ '':'')" for x
        using versions[of x] by (simp add: s')
    qed
    then show ?thesis by (simp add: stag_unaffected_def Inr)
  qed
qed


lemma anchor_unaffected_Inr:
  "anchor_unaffected s g a (Inr s') = (GetAnchor s' g a = GetAnchor s g a)"
  by (simp add: anchor_unaffected_def)

lemma stag_unaffected_Inr:
  "stag_unaffected s g (Inr s') = (GetStag s' g = GetStag s g)"
  by (simp add: stag_unaffected_def)

subsection \<open>Digests of the scenario events\<close>

text \<open>The MD5 digests of five concrete events, computed by rewriting.\<close>

lemma hash_camera_1:
  "CalculateEventHash (camera_event 1 [0]) = ''7b2fce81a8b3bd34c554a9e2599a8313''"
  by code_simp

lemma hash_camera_2:
  "CalculateEventHash (camera_event 2 [0]) = ''7fa980f736c39ae2cad1ee7f834678d7''"
  by code_simp

lemma hash_event1: "CalculateEventHash event1 = ''340324f292bf6bed4e0cc8ca8c46d124''"
  by code_simp

lemma hash_event2: "CalculateEventHash event2 = ''72e46e4e6041984acd9a32dad2f2c6fe''"
  by code_simp

lemma hash_event3: "CalculateEventHash event3 = ''bc1358166d36e958a9f8378d47d85255''"
  by code_simp

lemmas store_defs =
  bucket_Get_def bucket_Put_def bucket_Delete_def has_prefix_def cursor_scan_def empty_Store_def
  db_Update_def version_key_def anchor_key_def AddAnchorVersion_def GetAnchorVersions_def
  CreateAnchor_def GetAnchor_def UpdateAnchor_def ListAnchors_def CreateStag_def anchors_map_def
  GetStag_def UpdateStagStats_def

lemmas engine_defs =
  new_version_def meta_is_nil_def track_unique_def updated_stats_def fresh_anchor_def
  get_or_create_anchor_def append_version_def is_mesh_event_def processAnchorEvent_def
  target_anchor_def empty_StagStats_def fresh_stag_def processEvent_def ingest_def

subsection \<open>Evaluating the scenarios\<close>

lemma camera_event_sel [simp]:
  "ev_EventID (camera_event f i) = ''e''"
  "ev_EventType (camera_event f i) = ''camera''"
  "ev_Timestamp (camera_event f i) = 0"
  "ev_SessionID (camera_event f i) = ''S1''"
  "ev_ClientID (camera_event f i) = ''C1''"
  "ev_DeviceID (camera_event f i) = ''D1''"
  "ev_FrameNumber (camera_event f i) = f"
  "ev_Transform (camera_event f i) = None"
  "ev_PoseData (camera_event f i) = None"
  "ev_MeshData (camera_event f i) = None"
  "ev_CameraData (camera_event f i) \<noteq> None"
  "ev_DepthData (camera_event f i) = None"
  "ev_PointCloudData (camera_event f i) = None"
  "ev_LightingData (camera_event f i) = None"
  "ev_Metadata (camera_event f i) = []"
  by (simp_all add: camera_event_def)

lemma mesh_event_sel [simp]:
  "ev_EventID (mesh_event f m) = ''e''"
  "ev_EventType (mesh_event f m) = ''mesh''"
  "ev_Timestamp (mesh_event f m) = 0"
  "ev_SessionID (mesh_event f m) = ''S1''"
  "ev_ClientID (mesh_event f m) = ''C1''"
  "ev_DeviceID (mesh_event f m) = ''D1''"
  "ev_FrameNumber (mesh_event f m) = f"
  "ev_Transform (mesh_event f m) = None"
  "ev_PoseData (mesh_event f m) = None"
  "ev_MeshData (mesh_event f m) = Some m"
  "ev_CameraData (mesh_event f m) = None"
  "ev_DepthData (mesh_event f m) = None"
  "ev_PointCloudData (mesh_event f m) = None"
  "ev_LightingData (mesh_event f m) = None"
  "ev_Metadata (mesh_event f m) = []"
  by (simp_all add: mesh_event_def)

lemma triangle_sel [simp]:
  "mesh_AnchorID (triangle z) = ''A''"
  "mesh_Vertices (triangle z) = [0, 0, 0, f64_one, 0, 0, 0, f64_one, z]"
  "mesh_Faces (triangle z) = [0, 1, 2]"
  by (simp_all add: triangle_def)

lemma decode_zero_one:
  "f64_decode 0 = FFin False 0 0"
  "f64_decode f64_one = FFin False 4503599627370496 (- 52)"
  by (simp_all add: f64_decode_def f64_one_def Let_def bit_iff_odd drop_bit_eq_div)

lemma min_max_zero_one:
   "math_Min (FFin False 0 0) (FFin False 4503599627370496 (- 52)) = FFin False 0 0"
   "math_Max (FFin False 0 0) (FFin False 4503599627370496 (- 52)) = FFin False 4503599627370496 (- 52)"
   "math_Min (FFin False 0 0) (FFin False 0 0) = FFin False 0 0"
   "math_Max (FFin False 0 0) (FFin False 0 0) = FFin False 0 0"
   "math_Max (FFin False 4503599627370496 (- 52)) (FFin False 0 0) = FFin False 4503599627370496 (- 52)"
   "math_Max (FFin False 4503599627370496 (- 52)) (FFin False 4503599627370496 (- 52)) = FFin False 4503599627370496 (- 52)"
  by (simp_all add: math_Min_def math_Max_def f64_scaled_def)

lemma bitlen_53: "bitlen_nat 4503599627370496 = 53"
  by (simp add: bitlen_nat.simps)

lemma bitlen_105: "bitlen_nat 20282409603651670423947251286016 = 105"
  by (simp add: bitlen_nat.simps)

lemma arith_zero_one:
  "f64_sub (FFin False 4503599627370496 (- 52)) (FFin False 0 0) = FFin False 4503599627370496 (- 52)"
  "f64_sub (FFin False 0 0) (FFin False 0 0) = FFin False 0 0"
  "f64_mul (FFin False 4503599627370496 (- 52)) (FFin False 4503599627370496 (- 52)) = FFin False 4503599627370496 (- 52)"
  "f64_mul (FFin False 4503599627370496 (- 52)) (FFin False 0 0) = FFin False 0 0"
  by (simp_all add: f64_scaled_def f64_round_def shr_round_even_def bitlen_53 bitlen_105 Let_def)

lemma fmt_zero_one:
  "fmt_f3 (FFin False 0 0) = ''0.000''"
  "fmt_f3 (FFin False 4503599627370496 (- 52)) = ''1.000''"
  by (simp_all add: shr_round_even_def show_nat.simps dec_digit_def pad3_def Let_def)

lemma signature_triangles:
  "CalculateGeometrySignature (Some (triangle 0)) = ''A_3_3_0.000''"
  "CalculateGeometrySignature (Some (triangle f64_one)) = ''A_3_3_1.000''"
  by (simp_all add: CalculateGeometrySignature_def bbox_loop.simps decode_zero_one
      min_max_zero_one arith_zero_one fmt_zero_one show_nat.simps dec_digit_def Let_def
      del: f64_sub.simps f64_mul.simps fmt_f3.simps)

lemma show_int_1700000000s [simp]:
  "show_int 1700000001 = ''1700000001''" "show_int 1700000002 = ''1700000002''"
  "show_int 1700000003 = ''1700000003''" "show_int 1700000004 = ''1700000004''"
  by (simp_all add: show_int_def show_nat.simps dec_digit_def)

lemmas scenario_defs =
  store_defs engine_defs at_second_def anchor_update_fails_at_def Unix_def Let_def

lemma store_camera_1_eq:
  "store_camera_1 =
     \<lparr>StagsBucket =
        [(''S1'',
          \<lparr>stag_ID = ''S1'', stag_Name = ''Session S1'',
           stag_Description = ''Automatically created from session S1'',
           stag_CreatedAt = 1700000001000000000, stag_UpdatedAt = 1700000001000000000,
           stag_Anchors = [],
           stag_Stats = empty_StagStats\<lparr>FirstActivity := 1700000001000000000\<rparr>,
           stag_Metadata = []\<rparr>)],
      AnchorsBucket =
        [(''S1:camera_C1'',
          \<lparr>anc_ID = ''camera_C1'', anc_StagID = ''S1'',
           anc_CurrentHash = ''7b2fce81a8b3bd34c554a9e2599a8313'',
           anc_Versions = [], anc_CreatedAt = 1700000001000000000,
           anc_UpdatedAt = 1700000001000000000, anc_LastSessionID = ''S1'',
           anc_LastClientID = ''C1'', anc_LastDeviceID = ''D1'', anc_Metadata = []\<rparr>)],
      VersionsBucket = []\<rparr>"
  by (simp add: store_camera_1_def scenario_defs hash_camera_1)

lemma store_events_1_2_eq:
  "store_events_1_2 =
     \<lparr>StagsBucket =
        [(''S1'',
          \<lparr>stag_ID = ''S1'', stag_Name = ''Session S1'',
           stag_Description = ''Automatically created from session S1'',
           stag_CreatedAt = 1700000001000000000, stag_UpdatedAt = 1700000002000000000,
           stag_Anchors = [],
           stag_Stats =
             \<lparr>AnchorCount = 0, VersionCount = 1, EventCount = 1, SessionCount = 1,
              ClientCount = 1, DeviceCount = 1, LastActivity = 1700000002000000000,
              FirstActivity = 1700000001000000000, DataSize = 0\<rparr>,
           stag_Metadata = []\<rparr>)],
      AnchorsBucket =
        [(''S1:A'',
          \<lparr>anc_ID = ''A'', anc_StagID = ''S1'',
           anc_CurrentHash = ''72e46e4e6041984acd9a32dad2f2c6fe'',
           anc_Versions = [version_of_event2],
           anc_CreatedAt = 1700000001000000000, anc_UpdatedAt = 1700000002000000000,
           anc_LastSessionID = ''S1'', anc_LastClientID = ''C1'', anc_LastDeviceID = ''D1'',
           anc_Metadata = [(''geom_signature'', JString ''A_3_3_0.000'')]\<rparr>)],
      VersionsBucket = [(''S1:A:v1700000002'', version_of_event2)]\<rparr>"
  by (simp add: store_events_1_2_def scenario_defs version_of_event2_def
      hash_event1[unfolded event1_def] hash_event2[unfolded event2_def]
      event1_def event2_def signature_triangles)

subsection \<open>The anchor counter is never written\<close>

lemma anchor_count_zero_cong: "StagsBucket s' = StagsBucket s \<Longrightarrow> anchor_count_zero s' = anchor_count_zero s"
  by (simp add: anchor_count_zero_def)

lemma anchor_count_zero_insert:
  assumes "anchor_count_zero s" "AnchorCount (stag_Stats stag) = 0"
  shows "anchor_count_zero (s\<lparr>StagsBucket := bucket_insert (StagsBucket s) k stag\<rparr>)"
  using assms set_insert_subset[of "StagsBucket s" k stag]
  by (auto simp: anchor_count_zero_def)

lemma updated_stats_AnchorCount: "AnchorCount (updated_stats env stag event) = AnchorCount (stag_Stats stag)"
  by (simp add: updated_stats_def Let_def split: prod.splits)

lemma GetStag_zero:
  "GetStag s g = Inr stag \<Longrightarrow> anchor_count_zero s \<Longrightarrow> AnchorCount (stag_Stats stag) = 0"
  by (auto simp: GetStag_def anchor_count_zero_def split: option.splits dest!: get_in_set)

lemma append_version_zero:
  assumes "anchor_count_zero s" "AnchorCount (stag_Stats stag) = 0"
  shows "anchor_count_zero (fst (append_version env s stag aid event h anchor))"
proof (cases "AddAnchorVersion env s (stag_ID stag) aid (new_version env event h anchor)")
  case (Inl e)
  then show ?thesis using assms by (simp add: append_version_def)
next
  case (Inr s2)
  have z2: "anchor_count_zero s2"
    using AddAnchorVersion_Inr[OF Inr] assms(1) by (simp add: anchor_count_zero_def)
  let ?a2 = "anchor\<lparr>anc_CurrentHash := h, anc_LastSessionID := ev_SessionID event,
      anc_LastClientID := ev_ClientID event, anc_LastDeviceID := ev_DeviceID event,
      anc_Versions := anc_Versions anchor @ [new_version env event h anchor]\<rparr>"
  show ?thesis
  proof (cases "UpdateAnchor env s2 ?a2")
    case (Inl e)
    then show ?thesis using Inr z2 by (simp add: append_version_def)
  next
    case (Inr p)
    obtain s3 a3 where p: "p = (s3, a3)" by (cases p)
    have z3: "anchor_count_zero s3"
      using UpdateAnchor_Inr(2)[OF Inr[unfolded p]] z2 by (simp add: anchor_count_zero_def)
    show ?thesis
    proof (cases "UpdateStagStats env s3 (stag_ID stag) (updated_stats env stag event)")
      case (Inl e)
      then show ?thesis using \<open>AddAnchorVersion _ _ _ _ _ = Inr s2\<close> Inr p z3
        by (simp add: append_version_def)
    next
      case (Inr s4)
      from UpdateStagStats_Inr[OF Inr] obtain st where
        "s4 = s3\<lparr>StagsBucket := bucket_insert (StagsBucket s3) (stag_ID stag)
                 (st\<lparr>stag_Stats := updated_stats env stag event, stag_UpdatedAt := now env\<rparr>)\<rparr>"
        by blast
      then have "anchor_count_zero s4"
        using anchor_count_zero_insert[OF z3, of "st\<lparr>stag_Stats := updated_stats env stag event, stag_UpdatedAt := now env\<rparr>" "stag_ID stag"]
          assms(2) by (simp add: updated_stats_AnchorCount)
      then show ?thesis using \<open>AddAnchorVersion _ _ _ _ _ = Inr s2\<close> \<open>UpdateAnchor _ _ _ = Inr p\<close> p Inr
        by (simp add: append_version_def)
    qed
  qed
qed

lemma get_or_create_anchor_zero:
  assumes "get_or_create_anchor env s stag aid event h = Inr (s1, anchor)" "anchor_count_zero s"
  shows "anchor_count_zero s1"
proof (cases "GetAnchor s (stag_ID stag) aid")
  case (Inl e)
  with assms(1) have "CreateAnchor env s (fresh_anchor stag aid event h) = Inr (s1, anchor)"
    by (simp add: get_or_create_anchor_def)
  from CreateAnchor_Inr(2)[OF this] assms(2) show ?thesis by (simp add: anchor_count_zero_def)
next
  case (Inr a)
  with assms show ?thesis by (simp add: get_or_create_anchor_def)
qed

lemma processAnchorEvent_zero:
  assumes "anchor_count_zero s" "AnchorCount (stag_Stats stag) = 0"
  shows "anchor_count_zero (fst (processAnchorEvent env s stag aid event))"
proof (cases "get_or_create_anchor env s stag aid event (CalculateEventHash event)")
  case (Inl e)
  then show ?thesis using assms by (simp add: processAnchorEvent_def)
next
  case (Inr p)
  obtain s1 anchor where p: "p = (s1, anchor)" by (cases p)
  have z1: "anchor_count_zero s1" using get_or_create_anchor_zero[OF Inr[unfolded p] assms(1)] .
  show ?thesis
    using Inr p z1 append_version_zero[OF z1 assms(2)]
    by (simp add: processAnchorEvent_def Let_def)
qed

lemma processEvent_zero:
  assumes "anchor_count_zero s"
  shows "anchor_count_zero (fst (processEvent env s event))"
proof -
  define g where "g = (if ev_SessionID event = [] then ''default'' else ev_SessionID event)"
  show ?thesis
  proof (cases "GetStag s g")
    case (Inr stag)
    have st: "AnchorCount (stag_Stats stag) = 0" using GetStag_zero[OF Inr assms] .
    show ?thesis
      using Inr assms processAnchorEvent_zero[OF assms st]
      by (simp add: processEvent_def g_def[symmetric] split: sum.splits)
  next
    case (Inl e)
    show ?thesis
    proof (cases "CreateStag env s (fresh_stag env g)")
      case (Inl e')
      then show ?thesis using \<open>GetStag s g = Inl e\<close> assms
        by (simp add: processEvent_def g_def[symmetric])
    next
      case (Inr p)
      obtain s1 stag where p: "p = (s1, stag)" by (cases p)
      have f0: "AnchorCount (stag_Stats (fresh_stag env g)) = 0"
        by (simp add: fresh_stag_def empty_StagStats_def)
      have st: "AnchorCount (stag_Stats stag) = 0"
        using CreateStag_Inr(1)[OF Inr[unfolded p]] f0 by simp
      have z1: "anchor_count_zero s1"
        using CreateStag_Inr(2)[OF Inr[unfolded p]] anchor_count_zero_insert[OF assms st] by simp
      show ?thesis
        using \<open>GetStag s g = Inl e\<close> Inr p z1 processAnchorEvent_zero[OF z1 st]
        by (simp add: processEvent_def g_def[symmetric] split: sum.splits)
    qed
  qed
qed

lemma processBatch_zero:
  "anchor_count_zero (fst acc) \<Longrightarrow> anchor_count_zero (fst (processBatch events acc))"
proof (induction events arbitrary: acc)
  case Nil
  then show ?case by simp
next
  case (Cons x events)
  obtain env event where x: "x = (env, event)" by (cases x)
  obtain s p e where acc: "acc = (s, p, e)" by (cases acc)
  have "anchor_count_zero (fst (processEvent env s event))"
    using processEvent_zero Cons.prems acc by simp
  then show ?case
    using Cons.IH x acc
    by (auto split: prod.splits option.splits)
qed


lemma pose_event_sel [simp]:
  "ev_EventType (pose_event c f) = ''pose''"
  "ev_SessionID (pose_event c f) = ''S1''"
  "ev_ClientID (pose_event c f) = c"
  "ev_DeviceID (pose_event c f) = ''D1''"
  "ev_FrameNumber (pose_event c f) = f"
  "ev_PoseData (pose_event c f) \<noteq> None"
  "ev_MeshData (pose_event c f) = None"
  by (simp_all add: pose_event_def)

lemma two_poses_stags:
  "map (\<lambda>(k, stag). (k, stag_Stats stag)) (StagsBucket (ingest two_poses empty_Store)) =
     [(''S1'', empty_StagStats\<lparr>FirstActivity := 1700000001000000000\<rparr>)]"
  by (simp add: two_poses_def store_defs engine_defs at_second_def Let_def)

lemma two_poses_anchors:
  "map anc_ID (ListAnchors (ingest two_poses empty_Store) ''S1'') = [''pose_C1'', ''pose_C2'']"
  by (simp add: two_poses_def store_defs engine_defs at_second_def Let_def)

text \<open>
  Claim C10. After any finite sequence of ingested events, started on the empty store and
  with arbitrary clock readings and commit failures, every stored stag has
  \<open>anchor_count = 0\<close>, and so has every stag that \<open>GetStag\<close> returns: no path of the
  engine writes the counter.
\<close>

theorem C10_anchor_count_stays_zero:
  "(\<forall>(k, stag) \<in> set (StagsBucket (ingest events empty_Store)). AnchorCount (stag_Stats stag) = 0)
   \<and> (\<forall>g stag. GetStag (ingest events empty_Store) g = Inr stag
          \<longrightarrow> AnchorCount (stag_Stats stag) = 0)"
proof -
  have "anchor_count_zero empty_Store"
    by (simp add: anchor_count_zero_def empty_Store_def)
  then have z: "anchor_count_zero (ingest events empty_Store)"
    unfolding ingest_def using processBatch_zero[of "(empty_Store, 0, 0)" events] by simp
  then show ?thesis
    using GetStag_zero by (auto simp: anchor_count_zero_def)
qed

text \<open>
  Witness: two pose events of clients \<open>C1\<close> and \<open>C2\<close> create the two anchors
  \<open>pose_C1\<close> and \<open>pose_C2\<close> in stag \<open>S1\<close>, whose counter is still zero.
\<close>

theorem C10_anchor_count_stays_zero_witness:
  "map anc_ID (ListAnchors (ingest two_poses empty_Store) ''S1'') = [''pose_C1'', ''pose_C2'']
   \<and> map (\<lambda>(k, stag). (k, AnchorCount (stag_Stats stag))) (StagsBucket (ingest two_poses empty_Store))
       = [(''S1'', 0)]"
proof -
  obtain stag where b: "StagsBucket (ingest two_poses empty_Store) = [(''S1'', stag)]"
    using two_poses_stags by (auto simp: map_eq_Cons_conv)
  have "AnchorCount (stag_Stats stag) = 0"
    using C10_anchor_count_stays_zero[of two_poses] b by auto
  then show ?thesis using b two_poses_anchors by simp
qed

subsection \<open>The limit parameter of the history handler\<close>

lemma paging_loop_length:
  "int (length acc) \<le> limit \<Longrightarrow> int (length (paging_loop offset limit cur acc vs)) \<le> limit"
  by (induction vs arbitrary: cur acc) auto

lemma Atoi_literals:
  "Atoi ''0'' = Some 0" "Atoi ''25'' = Some 25" "Atoi ''1001'' = Some 1001" "Atoi ''abc'' = None"
  by (simp_all add: Atoi_def digit_of_def Let_def)

text \<open>
  Claim C6, as amended. The handler never rejects a request for its limit: the limit is
  the parsed parameter when that is an integer in \<open>(0, 1000]\<close>, and the default 50 in
  every other case (parameter absent, not a number, zero or negative, above 1000). The
  response holds at most that many versions.
\<close>

theorem C6_limit_falls_back_to_default:
  "\<exists>h. HandleGetAnchorHistory s stagID anchorID o_param l_param = HttpOK h
      \<and> (l_param = [] \<longrightarrow> hist_Limit h = 50)
      \<and> (\<forall>n. Atoi l_param = Some n \<and> 0 < n \<and> n \<le> 1000 \<longrightarrow> hist_Limit h = n)
      \<and> (\<forall>n. Atoi l_param = Some n \<and> (n \<le> 0 \<or> 1000 < n) \<longrightarrow> hist_Limit h = 50)
      \<and> (Atoi l_param = None \<longrightarrow> hist_Limit h = 50)
      \<and> 0 < hist_Limit h \<and> hist_Limit h \<le> 1000
      \<and> int (length (hist_Versions h)) \<le> hist_Limit h"
proof -
  define limit :: int where
    "limit = (if l_param \<noteq> []
              then (case Atoi l_param of
                      Some parsed \<Rightarrow> if parsed > 0 \<and> parsed \<le> 1000 then parsed else 50
                    | None \<Rightarrow> 50)
              else 50)"
  define offset :: int where
    "offset = (if o_param \<noteq> [] then (case Atoi o_param of Some parsed \<Rightarrow> parsed | None \<Rightarrow> 0) else 0)"
  let ?h = "GetAnchorHistory s stagID anchorID offset limit"
  have r: "HandleGetAnchorHistory s stagID anchorID o_param l_param = HttpOK ?h"
    by (simp add: HandleGetAnchorHistory_def Let_def limit_def offset_def)
  have lim: "hist_Limit ?h = limit"
    by (simp add: GetAnchorHistory_def GetAnchorVersionsWithPaging_def Let_def)
  have pos: "0 < limit" "limit \<le> 1000"
    by (auto simp: limit_def split: option.splits)
  have len: "int (length (hist_Versions ?h)) \<le> limit"
    using paging_loop_length[of "[]" limit] pos
    by (simp add: GetAnchorHistory_def GetAnchorVersionsWithPaging_def Let_def)
  have "Atoi [] = None" by (simp add: Atoi_def)
  then have cases:
    "l_param = [] \<longrightarrow> limit = 50"
    "\<forall>n. Atoi l_param = Some n \<and> 0 < n \<and> n \<le> 1000 \<longrightarrow> limit = n"
    "\<forall>n. Atoi l_param = Some n \<and> (n \<le> 0 \<or> 1000 < n) \<longrightarrow> limit = 50"
    "Atoi l_param = None \<longrightarrow> limit = 50"
    by (auto simp: limit_def)
  show ?thesis
    using r lim pos len cases by auto
qed

theorem C6_limit_falls_back_to_default_witness:
  "(\<exists>h. HandleGetAnchorHistory empty_Store ''S1'' ''A'' [] [] = HttpOK h \<and> hist_Limit h = 50)
   \<and> (\<exists>h. HandleGetAnchorHistory empty_Store ''S1'' ''A'' [] ''25'' = HttpOK h \<and> hist_Limit h = 25)
   \<and> (\<exists>h. HandleGetAnchorHistory empty_Store ''S1'' ''A'' [] ''0'' = HttpOK h \<and> hist_Limit h = 50)
   \<and> (\<exists>h. HandleGetAnchorHistory empty_Store ''S1'' ''A'' [] ''1001'' = HttpOK h \<and> hist_Limit h = 50)
   \<and> (\<exists>h. HandleGetAnchorHistory empty_Store ''S1'' ''A'' [] ''abc'' = HttpOK h \<and> hist_Limit h = 50)"
  using C6_limit_falls_back_to_default[of empty_Store "''S1''" "''A''" "[]" "[]"]
    C6_limit_falls_back_to_default[of empty_Store "''S1''" "''A''" "[]" "''25''"]
    C6_limit_falls_back_to_default[of empty_Store "''S1''" "''A''" "[]" "''0''"]
    C6_limit_falls_back_to_default[of empty_Store "''S1''" "''A''" "[]" "''1001''"]
    C6_limit_falls_back_to_default[of empty_Store "''S1''" "''A''" "[]" "''abc''"]
    Atoi_literals
  by (auto simp del: One_nat_def)

text \<open>
  Claim C6 as stated fails: a request with \<open>limit=0\<close> is answered with status 200 and
  limit 50 (not rejected), and a request with \<open>limit=1001\<close> is answered with limit 50
  (not 1000).
\<close>

theorem C6_limit_counterexample:
  "HandleGetAnchorHistory empty_Store ''S1'' ''A'' [] ''0'' =
     HttpOK \<lparr>hist_AnchorID = ''A'', hist_StagID = ''S1'', hist_Versions = [], hist_Total = 0,
             hist_Offset = 0, hist_Limit = 50\<rparr>
   \<and> HandleGetAnchorHistory empty_Store ''S1'' ''A'' [] ''1001'' =
     HttpOK \<lparr>hist_AnchorID = ''A'', hist_StagID = ''S1'', hist_Versions = [], hist_Total = 0,
             hist_Offset = 0, hist_Limit = 50\<rparr>"
  by (simp add: HandleGetAnchorHistory_def GetAnchorHistory_def GetAnchorVersionsWithPaging_def
      cursor_scan_def empty_Store_def Atoi_literals Let_def)

subsection \<open>The writes of one event are separate transactions\<close>

lemma addressedI:
  assumes "bucket_Get (StagsBucket s) (stag_id_of event) = Some st" "stag_ID st = stag_id_of event"
    "target_anchor event = Inr aid"
    "bucket_Get (AnchorsBucket s) (anchor_key (stag_id_of event) aid) = Some a"
    "anc_StagID a = stag_id_of event" "anc_ID a = aid"
  shows "addressed s event (projr (GetStag s (stag_id_of event))) aid
           (projr (GetAnchor s (stag_id_of event) aid))"
  using assms by (simp add: addressed_def GetStag_def GetAnchor_def)

lemma append_version_None_length:
  assumes "append_version env s stag aid event h a1 = (s', None)"
  shows "length (version_key (stag_ID stag) aid (''v'' @ show_int (Unix (now env)))) \<le> 32768"
proof (rule ccontr)
  assume "\<not> ?thesis"
  then have "AddAnchorVersion env s (stag_ID stag) aid (new_version env event h a1) = Inl ''key too large''"
    by (simp add: AddAnchorVersion_eq new_version_def)
  then show False using assms by (simp add: append_version_def)
qed

lemma processEvent_appended:
  assumes ad: "addressed s event stag aid anchor" and nd: "\<not> is_duplicate event anchor"
    and ok: "processEvent env s event = (s', None)"
  shows "s' = after_stats env s event aid anchor stag"
    and "OpAddAnchorVersion \<notin> set (io_fails env)"
proof -
  have ap: "append_version env s stag aid event (CalculateEventHash event)
              (anchor_with_signature event anchor) = (s', None)"
    using processEvent_addressed[OF ad, of env] nd ok by simp
  have "stag_ID stag = stag_id_of event" using ad by (simp add: addressed_def)
  then have len: "length (version_key_for env event aid) \<le> 32768"
    using append_version_None_length[OF ap] by (simp add: version_key_for_def)
  from ap append_version_addressed[OF ad len]
  show "s' = after_stats env s event aid anchor stag"
    by (auto split: if_splits)
  from ap append_version_addressed[OF ad len]
  show "OpAddAnchorVersion \<notin> set (io_fails env)"
    by (auto split: if_splits)
qed

text \<open>
  Claim C3, as amended. Take an event addressed at an existing anchor of an existing
  stag, both stored under their own ids, for which the event is not a duplicate, and
  whose version key is within the key size limit of the engine (32768 bytes). The
  version append, the anchor update and the statistics update are three transactions,
  committed one after the other. If the first fails, the store is unchanged; if the
  second fails, the event is reported as failed but its version record is stored; if the
  third fails, the version record and the updated anchor are stored.
\<close>

theorem C3_each_write_commits_separately:
  assumes "addressed s event stag anchorID anchor"
    and "\<not> is_duplicate event anchor"
    and "length (version_key_for env event anchorID) \<le> 32768"
  shows "(OpAddAnchorVersion \<in> set (io_fails env)
            \<longrightarrow> (\<exists>err. processEvent env s event = (s, Some err)))
       \<and> (OpAddAnchorVersion \<notin> set (io_fails env) \<and> OpUpdateAnchor \<in> set (io_fails env)
            \<longrightarrow> (\<exists>err. processEvent env s event =
                        (after_version env s event anchorID anchor, Some err)))
       \<and> (OpAddAnchorVersion \<notin> set (io_fails env) \<and> OpUpdateAnchor \<notin> set (io_fails env)
            \<and> OpUpdateStagStats \<in> set (io_fails env)
            \<longrightarrow> (\<exists>err. processEvent env s event =
                        (after_anchor env s event anchorID anchor, Some err)))
       \<and> bucket_Get (VersionsBucket (after_version env s event anchorID anchor))
            (version_key_for env event anchorID) = Some (version_for env event anchor)
       \<and> bucket_Get (VersionsBucket (after_anchor env s event anchorID anchor))
            (version_key_for env event anchorID) = Some (version_for env event anchor)
       \<and> bucket_Get (AnchorsBucket (after_anchor env s event anchorID anchor))
            (anchor_key (stag_id_of event) anchorID)
            = Some (updated_anchor env event (anchor_with_signature event anchor))"
  using processEvent_addressed[OF assms(1), of env] assms(2)
    append_version_addressed[OF assms(1) assms(3)]
  by (simp add: after_version_def after_anchor_def get_insert_same)

lemma camera_2_at_store_camera_1:
  "stag_id_of (camera_event 2 [0]) = ''S1''"
  "target_anchor (camera_event 2 [0]) = Inr ''camera_C1''"
  by (simp_all add: stag_id_of_def target_anchor_def)

lemma camera_2_addressed:
  "addressed store_camera_1 (camera_event 2 [0]) (projr (GetStag store_camera_1 ''S1''))
     ''camera_C1'' (projr (GetAnchor store_camera_1 ''S1'' ''camera_C1''))"
  using addressedI[of store_camera_1 "camera_event 2 [0]" _ "''camera_C1''"]
  by (simp add: camera_2_at_store_camera_1 store_camera_1_eq bucket_Get_def anchor_key_def)

lemma camera_2_not_duplicate:
  "\<not> is_duplicate (camera_event 2 [0]) (projr (GetAnchor store_camera_1 ''S1'' ''camera_C1''))"
  by (simp add: is_duplicate_def is_mesh_event_def hash_camera_2 store_camera_1_eq GetAnchor_def
      bucket_Get_def anchor_key_def)

lemma camera_2_key:
  "version_key_for (anchor_update_fails_at 1700000002) (camera_event 2 [0]) ''camera_C1''
     = ''S1:camera_C1:v1700000002''"
  by (simp add: version_key_for_def version_key_def camera_2_at_store_camera_1
      anchor_update_fails_at_def Unix_def)

text \<open>
  Witness: the camera frame 2 arrives at the anchor that frame 1 created, and the anchor
  update cannot be committed.
\<close>

theorem C3_each_write_commits_separately_witness:
  "addressed store_camera_1 (camera_event 2 [0]) (projr (GetStag store_camera_1 ''S1''))
     ''camera_C1'' (projr (GetAnchor store_camera_1 ''S1'' ''camera_C1''))
   \<and> \<not> is_duplicate (camera_event 2 [0]) (projr (GetAnchor store_camera_1 ''S1'' ''camera_C1''))
   \<and> length (version_key_for (anchor_update_fails_at 1700000002) (camera_event 2 [0]) ''camera_C1'')
        \<le> 32768
   \<and> OpAddAnchorVersion \<notin> set (io_fails (anchor_update_fails_at 1700000002))
   \<and> OpUpdateAnchor \<in> set (io_fails (anchor_update_fails_at 1700000002))
   \<and> (\<exists>err. processEvent (anchor_update_fails_at 1700000002) store_camera_1 (camera_event 2 [0])
          = (after_version (anchor_update_fails_at 1700000002) store_camera_1 (camera_event 2 [0])
               ''camera_C1'' (projr (GetAnchor store_camera_1 ''S1'' ''camera_C1'')),
             Some err))"
proof -
  have len: "length (version_key_for (anchor_update_fails_at 1700000002) (camera_event 2 [0]) ''camera_C1'')
        \<le> 32768"
    by (simp add: camera_2_key)
  have f: "OpAddAnchorVersion \<notin> set (io_fails (anchor_update_fails_at 1700000002))"
    "OpUpdateAnchor \<in> set (io_fails (anchor_update_fails_at 1700000002))"
    by (simp_all add: anchor_update_fails_at_def)
  show ?thesis
    using C3_each_write_commits_separately[OF camera_2_addressed camera_2_not_duplicate len]
      camera_2_addressed camera_2_not_duplicate len f
    by blast
qed

text \<open>
  Claim C3 as stated fails: with the anchor update failing, the event is reported as
  failed, yet the store, which held no version before, holds the event's version record.
\<close>

theorem C3_counterexample:
  "VersionsBucket store_camera_1 = []
   \<and> snd (processEvent (anchor_update_fails_at 1700000002) store_camera_1 (camera_event 2 [0]))
       = Some ''failed to update anchor: commit failed''
   \<and> map (\<lambda>(k, v). (k, ver_Hash v, ver_FrameNumber v))
         (VersionsBucket
            (fst (processEvent (anchor_update_fails_at 1700000002) store_camera_1 (camera_event 2 [0]))))
       = [(''S1:camera_C1:v1700000002'', ''7fa980f736c39ae2cad1ee7f834678d7'', 2)]"
  by (simp add: store_camera_1_eq scenario_defs hash_camera_2)

subsection \<open>The geometric-signature filter\<close>

lemma map_of_update_same: "map_of (AList.update k v al) k = Some v"
  by (simp add: update_conv')

lemma GetAnchor_after_stats:
  "GetAnchor (after_stats env s event aid anchor stag) (stag_id_of event) aid =
     Inr ((updated_anchor env event (anchor_with_signature event anchor))
            \<lparr>anc_Versions :=
               GetAnchorVersions (after_stats env s event aid anchor stag) (stag_id_of event) aid\<rparr>)"
  by (simp add: GetAnchor_def after_stats_def after_anchor_def after_version_def get_insert_same)

lemma Versions_after_stats:
  "VersionsBucket (after_stats env s event aid anchor stag) =
     bucket_insert (VersionsBucket s) (version_key_for env event aid) (version_for env event anchor)"
  by (simp add: after_stats_def after_anchor_def after_version_def)

text \<open>
  Claim C5, as amended. For a mesh event addressed at an existing anchor: if the stored
  signature equals the event's, the store is left as it is (no version, signature
  unchanged), whatever the content hash. If the signatures differ and the content hash
  differs from the anchor's, and the event is processed without error, the version is
  stored and the anchor read back carries the new signature and the new hash.
\<close>

theorem C5_signature_filter:
  assumes "addressed s event stag anchorID anchor"
    and "is_mesh_event event"
  shows "(map_of (anc_Metadata anchor) ''geom_signature''
            = Some (JString (CalculateGeometrySignature (ev_MeshData event)))
          \<longrightarrow> processEvent env s event = (s, None))
       \<and> (map_of (anc_Metadata anchor) ''geom_signature''
            \<noteq> Some (JString (CalculateGeometrySignature (ev_MeshData event)))
          \<and> anc_CurrentHash anchor \<noteq> CalculateEventHash event
          \<and> processEvent env s event = (s', None)
          \<longrightarrow> bucket_Get (VersionsBucket s') (version_key_for env event anchorID)
                = Some (version_for env event anchor)
              \<and> (\<exists>anchor'. GetAnchor s' (stag_id_of event) anchorID = Inr anchor'
                    \<and> map_of (anc_Metadata anchor') ''geom_signature''
                        = Some (JString (CalculateGeometrySignature (ev_MeshData event)))
                    \<and> anc_CurrentHash anchor' = CalculateEventHash event))"
proof (intro conjI impI)
  assume "map_of (anc_Metadata anchor) ''geom_signature''
            = Some (JString (CalculateGeometrySignature (ev_MeshData event)))"
  then have "is_duplicate event anchor" using assms(2) by (simp add: is_duplicate_def)
  then show "processEvent env s event = (s, None)"
    using processEvent_addressed[OF assms(1), of env] by simp
next
  assume h: "map_of (anc_Metadata anchor) ''geom_signature''
            \<noteq> Some (JString (CalculateGeometrySignature (ev_MeshData event)))
          \<and> anc_CurrentHash anchor \<noteq> CalculateEventHash event
          \<and> processEvent env s event = (s', None)"
  then have nd: "\<not> is_duplicate event anchor" by (simp add: is_duplicate_def)
  have s': "s' = after_stats env s event anchorID anchor stag"
    using processEvent_appended(1)[OF assms(1) nd] h by simp
  show "bucket_Get (VersionsBucket s') (version_key_for env event anchorID)
                = Some (version_for env event anchor)"
    by (simp add: s' Versions_after_stats get_insert_same)
  obtain vs where g: "GetAnchor s' (stag_id_of event) anchorID =
      Inr ((updated_anchor env event (anchor_with_signature event anchor))\<lparr>anc_Versions := vs\<rparr>)"
    using GetAnchor_after_stats[of env s event anchorID anchor stag] s' by simp
  show "\<exists>anchor'. GetAnchor s' (stag_id_of event) anchorID = Inr anchor'
                    \<and> map_of (anc_Metadata anchor') ''geom_signature''
                        = Some (JString (CalculateGeometrySignature (ev_MeshData event)))
                    \<and> anc_CurrentHash anchor' = CalculateEventHash event"
    using g assms(2)
    by (simp add: updated_anchor_def anchor_with_signature_def map_of_update_same)
qed

lemma events_at_S1_A:
  "stag_id_of event1 = ''S1''" "target_anchor event1 = Inr ''A''" "is_mesh_event event1"
  "stag_id_of event3 = ''S1''" "target_anchor event3 = Inr ''A''" "is_mesh_event event3"
  by (simp_all add: stag_id_of_def target_anchor_def is_mesh_event_def event1_def event3_def)

lemma event1_addressed:
  "addressed store_events_1_2 event1 (projr (GetStag store_events_1_2 ''S1''))
     ''A'' (projr (GetAnchor store_events_1_2 ''S1'' ''A''))"
  using addressedI[of store_events_1_2 event1 _ "''A''"]
  by (simp add: events_at_S1_A store_events_1_2_eq bucket_Get_def anchor_key_def)

lemma event3_addressed:
  "addressed store_events_1_2 event3 (projr (GetStag store_events_1_2 ''S1''))
     ''A'' (projr (GetAnchor store_events_1_2 ''S1'' ''A''))"
  using addressedI[of store_events_1_2 event3 _ "''A''"]
  by (simp add: events_at_S1_A store_events_1_2_eq bucket_Get_def anchor_key_def)

lemma anchor_A_after_events_1_2:
  "anc_CurrentHash (projr (GetAnchor store_events_1_2 ''S1'' ''A'')) = ''72e46e4e6041984acd9a32dad2f2c6fe''"
  "map_of (anc_Metadata (projr (GetAnchor store_events_1_2 ''S1'' ''A''))) ''geom_signature''
     = Some (JString ''A_3_3_0.000'')"
  by (simp_all add: store_events_1_2_eq GetAnchor_def bucket_Get_def anchor_key_def)

lemma event_signatures:
  "CalculateGeometrySignature (ev_MeshData event1) = ''A_3_3_0.000''"
  "CalculateGeometrySignature (ev_MeshData event3) = ''A_3_3_1.000''"
  by (simp_all add: event1_def event3_def signature_triangles)

lemmas mesh_hashes =
  hash_event1[unfolded event1_def] hash_event2[unfolded event2_def] hash_event3[unfolded event3_def]

lemma processEvent_event3:
  "snd (processEvent (at_second 1700000003) store_events_1_2 event3) = None"
  by (simp add: store_events_1_2_eq scenario_defs event3_def mesh_hashes signature_triangles)


text \<open>
  Witness: after events 1 and 2 the anchor \<open>A\<close> carries the hash of event 2 and the
  signature \<open>A_3_3_0.000\<close>. Event 1 (same geometry, another hash) is then dropped; event 3
  (another geometry) is appended and the signature becomes \<open>A_3_3_1.000\<close>.
\<close>

theorem C5_signature_filter_witness:
  "addressed store_events_1_2 event1 (projr (GetStag store_events_1_2 ''S1''))
     ''A'' (projr (GetAnchor store_events_1_2 ''S1'' ''A''))
   \<and> is_mesh_event event1
   \<and> map_of (anc_Metadata (projr (GetAnchor store_events_1_2 ''S1'' ''A''))) ''geom_signature''
       = Some (JString (CalculateGeometrySignature (ev_MeshData event1)))
   \<and> anc_CurrentHash (projr (GetAnchor store_events_1_2 ''S1'' ''A'')) \<noteq> CalculateEventHash event1
   \<and> processEvent (at_second 1700000003) store_events_1_2 event1 = (store_events_1_2, None)
   \<and> addressed store_events_1_2 event3 (projr (GetStag store_events_1_2 ''S1''))
     ''A'' (projr (GetAnchor store_events_1_2 ''S1'' ''A''))
   \<and> is_mesh_event event3
   \<and> map_of (anc_Metadata (projr (GetAnchor store_events_1_2 ''S1'' ''A''))) ''geom_signature''
       \<noteq> Some (JString (CalculateGeometrySignature (ev_MeshData event3)))
   \<and> anc_CurrentHash (projr (GetAnchor store_events_1_2 ''S1'' ''A'')) \<noteq> CalculateEventHash event3
   \<and> snd (processEvent (at_second 1700000003) store_events_1_2 event3) = None
   \<and> (\<exists>anchor'. GetAnchor (fst (processEvent (at_second 1700000003) store_events_1_2 event3))
                    ''S1'' ''A'' = Inr anchor'
          \<and> map_of (anc_Metadata anchor') ''geom_signature'' = Some (JString ''A_3_3_1.000'')
          \<and> anc_CurrentHash anchor' = ''bc1358166d36e958a9f8378d47d85255'')"
proof -
  let ?anchor = "projr (GetAnchor store_events_1_2 ''S1'' ''A'')"
  let ?r3 = "processEvent (at_second 1700000003) store_events_1_2 event3"
  have m1: "map_of (anc_Metadata ?anchor) ''geom_signature''
       = Some (JString (CalculateGeometrySignature (ev_MeshData event1)))"
    by (simp add: anchor_A_after_events_1_2 event_signatures)
  have h1: "anc_CurrentHash ?anchor \<noteq> CalculateEventHash event1"
    by (simp add: anchor_A_after_events_1_2 hash_event1)
  have m3: "map_of (anc_Metadata ?anchor) ''geom_signature''
       \<noteq> Some (JString (CalculateGeometrySignature (ev_MeshData event3)))"
    by (simp add: anchor_A_after_events_1_2 event_signatures)
  have h3: "anc_CurrentHash ?anchor \<noteq> CalculateEventHash event3"
    by (simp add: anchor_A_after_events_1_2 hash_event3)
  have r3: "?r3 = (fst ?r3, None)"
    using processEvent_event3 by (simp add: prod_eq_iff)
  from C5_signature_filter[OF event1_addressed events_at_S1_A(3), of "at_second 1700000003"] m1
  have a: "processEvent (at_second 1700000003) store_events_1_2 event1 = (store_events_1_2, None)"
    by blast
  from C5_signature_filter[OF event3_addressed events_at_S1_A(6),
      of "at_second 1700000003" "fst ?r3"] m3 h3 r3
  have b: "\<exists>anchor'. GetAnchor (fst ?r3) ''S1'' ''A'' = Inr anchor'
          \<and> map_of (anc_Metadata anchor') ''geom_signature'' = Some (JString ''A_3_3_1.000'')
          \<and> anc_CurrentHash anchor' = ''bc1358166d36e958a9f8378d47d85255''"
    by (simp add: events_at_S1_A event_signatures hash_event3)
  show ?thesis
    using event1_addressed event3_addressed events_at_S1_A(3,6) m1 h1 m3 h3 a b processEvent_event3
    by blast
qed

text \<open>
  Claim C5 as stated fails where the content hash is equal: event 1 arrives a second time
  at the anchor it created. The anchor stores no signature, so the signatures differ, yet
  nothing is appended and no signature is stored.
\<close>

theorem C5_counterexample:
  "is_mesh_event event1
   \<and> \<not> isl (GetAnchor store_event1 ''S1'' ''A'')
   \<and> map_of (anc_Metadata (projr (GetAnchor store_event1 ''S1'' ''A''))) ''geom_signature'' = None
   \<and> CalculateGeometrySignature (ev_MeshData event1) = ''A_3_3_0.000''
   \<and> processEvent (at_second 1700000002) store_event1 event1 = (store_event1, None)
   \<and> VersionsBucket store_event1 = []"
  by (simp add: store_event1_def scenario_defs event1_def signature_triangles)

subsection \<open>Ingesting an event twice\<close>

lemma length_insert_fresh:
  "k \<notin> fst ` set b \<Longrightarrow> length (bucket_insert b k v) = Suc (length b)"
  by (induction b k v rule: bucket_insert.induct) auto

lemma scan_insert_new:
  assumes "bucket_wf b" "has_prefix p k" "k \<notin> fst ` set b" "p \<notin> fst ` set b"
  shows "length (cursor_scan (bucket_insert b k v) p) = Suc (length (cursor_scan b p))"
proof -
  have pk: "p \<noteq> k" using assms(2) by (auto simp: has_prefix_def)
  have wf': "bucket_wf (bucket_insert b k v)" using wf_insert[OF assms(1)] .
  have notin: "p \<notin> fst ` set (bucket_insert b k v)"
    using assms(4) pk by (simp add: keys_insert)
  have fresh: "k \<notin> fst ` set (filter (\<lambda>(k, v). has_prefix p k) b)"
    using assms(3) by auto
  show ?thesis
    using scan_char[OF wf', of p] scan_char[OF assms(1), of p] notin assms(2,4)
      filter_insert[OF assms(1), of "has_prefix p" k v] length_insert_fresh[OF fresh]
    by simp
qed

lemma version_key_has_prefix:
  "has_prefix (stag_id_of event @ '':'' @ aid @ '':'') (version_key_for env event aid)"
  by (simp add: has_prefix_def version_key_for_def version_key_def)

text \<open>
  Ingesting twice at an existing anchor. For an event addressed at an
  existing anchor for which it is not a duplicate (other content hash and, for a mesh,
  other signature), and whose first ingestion succeeds: the first ingestion stores
  exactly the one version record of the event, and a second ingestion of the same event,
  at any later clock reading and whatever commits would fail, changes nothing. When the
  version key is new in a sorted bucket, the anchor's version chain is longer by exactly
  one.
\<close>

theorem second_ingestion_at_existing_anchor:
  assumes "addressed s event stag anchorID anchor"
    and "\<not> is_duplicate event anchor"
    and "processEvent env1 s event = (s1, None)"
  shows "VersionsBucket s1 =
           bucket_insert (VersionsBucket s) (version_key_for env1 event anchorID)
             (version_for env1 event anchor)
       \<and> processEvent env2 s1 event = (s1, None)
       \<and> (bucket_wf (VersionsBucket s)
            \<and> version_key_for env1 event anchorID \<notin> fst ` set (VersionsBucket s)
            \<and> (stag_id_of event @ '':'' @ anchorID @ '':'') \<notin> fst ` set (VersionsBucket s)
          \<longrightarrow> length (GetAnchorVersions s1 (stag_id_of event) anchorID)
                = Suc (length (GetAnchorVersions s (stag_id_of event) anchorID)))"
proof -
  let ?g = "stag_id_of event"
  have s1: "s1 = after_stats env1 s event anchorID anchor stag"
    using processEvent_appended(1)[OF assms] .
  have v: "VersionsBucket s1 =
           bucket_insert (VersionsBucket s) (version_key_for env1 event anchorID)
             (version_for env1 event anchor)"
    by (simp add: s1 Versions_after_stats)
  from assms(1) have gs: "GetStag s ?g = Inr stag" and sid: "stag_ID stag = ?g"
    and ta: "target_anchor event = Inr anchorID"
    and ids: "anc_StagID anchor = ?g" "anc_ID anchor = anchorID"
    by (simp_all add: addressed_def)
  from gs obtain st0 where st0: "bucket_Get (StagsBucket s) ?g = Some st0"
    "stag = st0\<lparr>stag_Anchors := anchors_map (ListAnchors s ?g)\<rparr>"
    by (rule GetStag_record)
  have sid0: "stag_ID st0 = ?g" using sid st0(2) by simp
  have ad1: "addressed s1 event (projr (GetStag s1 ?g)) anchorID (projr (GetAnchor s1 ?g anchorID))"
  proof (rule addressedI)
    show "bucket_Get (StagsBucket s1) ?g =
        Some (st0\<lparr>stag_Stats := updated_stats env1 stag event, stag_UpdatedAt := now env1\<rparr>)"
      by (simp add: s1 after_stats_def st0(1) get_insert_same)
    show "stag_ID (st0\<lparr>stag_Stats := updated_stats env1 stag event, stag_UpdatedAt := now env1\<rparr>) = ?g"
      using sid0 by simp
    show "target_anchor event = Inr anchorID" by (rule ta)
    show "bucket_Get (AnchorsBucket s1) (anchor_key ?g anchorID) =
        Some (updated_anchor env1 event (anchor_with_signature event anchor))"
      by (simp add: s1 after_stats_def after_anchor_def get_insert_same)
    show "anc_StagID (updated_anchor env1 event (anchor_with_signature event anchor)) = ?g"
      using ids by (simp add: updated_anchor_def)
    show "anc_ID (updated_anchor env1 event (anchor_with_signature event anchor)) = anchorID"
      using ids by (simp add: updated_anchor_def)
  qed
  have "anc_CurrentHash (projr (GetAnchor s1 ?g anchorID)) = CalculateEventHash event"
    using GetAnchor_after_stats[of env1 s event anchorID anchor stag]
    by (simp add: s1 updated_anchor_def)
  then have dup: "is_duplicate event (projr (GetAnchor s1 ?g anchorID))"
    by (simp add: is_duplicate_def)
  have second: "processEvent env2 s1 event = (s1, None)"
    using processEvent_addressed[OF ad1, of env2] dup by simp
  have count: "bucket_wf (VersionsBucket s)
            \<and> version_key_for env1 event anchorID \<notin> fst ` set (VersionsBucket s)
            \<and> (?g @ '':'' @ anchorID @ '':'') \<notin> fst ` set (VersionsBucket s)
          \<longrightarrow> length (GetAnchorVersions s1 ?g anchorID)
                = Suc (length (GetAnchorVersions s ?g anchorID))"
    using scan_insert_new[of "VersionsBucket s" "?g @ '':'' @ anchorID @ '':''"
        "version_key_for env1 event anchorID" "version_for env1 event anchor"]
      version_key_has_prefix[of event anchorID env1]
    by (simp add: GetAnchorVersions_def v)
  show ?thesis using v second count by blast
qed


lemma event3_not_duplicate:
  "\<not> is_duplicate event3 (projr (GetAnchor store_events_1_2 ''S1'' ''A''))"
  by (simp add: is_duplicate_def anchor_A_after_events_1_2 hash_event3 event_signatures)

lemma event3_version_key:
  "version_key_for (at_second 1700000003) event3 ''A'' = ''S1:A:v1700000003''"
  by (simp add: version_key_for_def version_key_def events_at_S1_A at_second_def Unix_def)

lemma versions_after_events_1_2:
  "VersionsBucket store_events_1_2 = [(''S1:A:v1700000002'', version_of_event2)]"
  "GetAnchorVersions store_events_1_2 ''S1'' ''A'' = [version_of_event2]"
  by (simp_all add: store_events_1_2_eq GetAnchorVersions_def cursor_scan_def has_prefix_def)

text \<open>
  Example: event 3 arrives twice at the anchor that events 1 and 2 left with one version;
  the chain has two versions after the first arrival and the second changes nothing.
\<close>

theorem second_ingestion_at_existing_anchor_example:
  "addressed store_events_1_2 event3 (projr (GetStag store_events_1_2 ''S1''))
     ''A'' (projr (GetAnchor store_events_1_2 ''S1'' ''A''))
   \<and> \<not> is_duplicate event3 (projr (GetAnchor store_events_1_2 ''S1'' ''A''))
   \<and> snd (processEvent (at_second 1700000003) store_events_1_2 event3) = None
   \<and> processEvent (at_second 1700000004)
         (fst (processEvent (at_second 1700000003) store_events_1_2 event3)) event3
       = (fst (processEvent (at_second 1700000003) store_events_1_2 event3), None)
   \<and> length (GetAnchorVersions store_events_1_2 ''S1'' ''A'') = 1
   \<and> length (GetAnchorVersions (fst (processEvent (at_second 1700000003) store_events_1_2 event3))
                ''S1'' ''A'') = 2"
proof -
  let ?r3 = "processEvent (at_second 1700000003) store_events_1_2 event3"
  have r3: "?r3 = (fst ?r3, None)"
    using processEvent_event3 by (simp add: prod_eq_iff)
  have wf: "bucket_wf (VersionsBucket store_events_1_2)"
    "version_key_for (at_second 1700000003) event3 ''A'' \<notin> fst ` set (VersionsBucket store_events_1_2)"
    "(stag_id_of event3 @ '':'' @ ''A'' @ '':'') \<notin> fst ` set (VersionsBucket store_events_1_2)"
    by (simp_all add: versions_after_events_1_2 bucket_wf_def event3_version_key events_at_S1_A)
  from second_ingestion_at_existing_anchor[OF event3_addressed event3_not_duplicate r3,
      of "at_second 1700000004"] wf
  have "processEvent (at_second 1700000004) (fst ?r3) event3 = (fst ?r3, None)"
    and "length (GetAnchorVersions (fst ?r3) ''S1'' ''A'') = 2"
    by (simp_all add: events_at_S1_A versions_after_events_1_2)
  then show ?thesis
    using event3_addressed event3_not_duplicate processEvent_event3
    by (simp add: versions_after_events_1_2)
qed

text \<open>
  Claim C2, on the code. The first mesh event of a session is ingested twice into an
  empty store. The first ingestion creates the anchor with the event's hash as its
  current hash and then compares that hash with the event's: the content counts as
  unchanged, and the \<open>create\<close> version that the engine would build for an anchor
  without versions is never stored. The second ingestion changes nothing. The anchor
  exists and has no version, where the claim has exactly one.
\<close>

theorem C2_first_event_never_versioned:
  "target_anchor event1 = Inr ''A''
   \<and> processEvent (at_second 1700000001) empty_Store event1 = (store_event1, None)
   \<and> processEvent (at_second 1700000002) store_event1 event1 = (store_event1, None)
   \<and> \<not> isl (GetAnchor store_event1 ''S1'' ''A'')
   \<and> anc_CurrentHash (projr (GetAnchor store_event1 ''S1'' ''A'')) = CalculateEventHash event1
   \<and> GetAnchorVersions store_event1 ''S1'' ''A'' = []
   \<and> VersionsBucket store_event1 = []"
  by (simp add: store_event1_def scenario_defs event1_def)

subsection \<open>End-to-end scenario 1\<close>

text \<open>
  Claim C1, on the code. The three events of scenario 1, each processed at its own second,
  leave one anchor \<open>A\<close> in stag \<open>S1\<close> with two versions, \<open>create\<close> then \<open>update\<close>, and
  \<open>version_count = 2\<close>; the versions are those of events 2 and 3 (event 1 only creates
  the anchor), and the session, client and device counters are 2, not 1: the marks of
  the ids already seen are never stored, so each stored version counts its ids again.
\<close>

theorem C1_scenario_1_evaluated:
  "map fst (AnchorsBucket store_scenario_1) = [''S1:A'']
   \<and> map (\<lambda>(k, v). (k, ver_ChangeType v, ver_FrameNumber v)) (VersionsBucket store_scenario_1)
       = [(''S1:A:v1700000002'', ''create'', 2), (''S1:A:v1700000003'', ''update'', 3)]
   \<and> map (\<lambda>v. (ver_ChangeType v, ver_FrameNumber v)) (GetAnchorVersions store_scenario_1 ''S1'' ''A'')
       = [(''create'', 2), (''update'', 3)]
   \<and> map (\<lambda>(k, stag). (k, VersionCount (stag_Stats stag), SessionCount (stag_Stats stag),
                           ClientCount (stag_Stats stag), DeviceCount (stag_Stats stag),
                           stag_Metadata stag))
         (StagsBucket store_scenario_1)
       = [(''S1'', 2, 2, 2, 2, [])]"
  by (simp add: store_scenario_1_def scenario_defs event1_def event2_def event3_def mesh_hashes
      signature_triangles)

subsection \<open>Version identifiers\<close>

text \<open>
  Claim C4, on the code. The version id is \<open>v\<close> followed by the Unix second of the
  clock. When events 2 and 3 of scenario 1 are processed within the same second, the
  version of event 3 is stored under the key of the version of event 2 and replaces it:
  one version is left, although the statistics count two.
\<close>

theorem C4_same_second_replaces_version:
  "map (\<lambda>(k, v). (k, ver_ChangeType v, ver_FrameNumber v))
       (VersionsBucket store_scenario_1_same_second)
     = [(''S1:A:v1700000002'', ''update'', 3)]
   \<and> map ver_FrameNumber (GetAnchorVersions store_scenario_1_same_second ''S1'' ''A'') = [3]
   \<and> map (\<lambda>(k, stag). (k, VersionCount (stag_Stats stag))) (StagsBucket store_scenario_1_same_second)
       = [(''S1'', 2)]"
  by (simp add: store_scenario_1_same_second_def scenario_defs event1_def event2_def event3_def
      mesh_hashes signature_triangles)

subsection \<open>Camera frames\<close>

text \<open>
  Claim C8, as amended. Two camera events with the same frame number, the same transforms
  (of the event and of the camera data) and the same width, height, format, image-data
  length and intrinsics have the same content hash, whatever their image bytes.
\<close>

theorem C8_camera_hash_ignores_image_bytes:
  assumes "ev_EventType e1 = ''camera''" "ev_EventType e2 = ''camera''"
    and "ev_CameraData e1 = Some c1" "ev_CameraData e2 = Some c2"
    and "cam_Width c1 = cam_Width c2" "cam_Height c1 = cam_Height c2"
    and "cam_Format c1 = cam_Format c2"
    and "length (cam_ImageData c1) = length (cam_ImageData c2)"
    and "cam_Intrinsics c1 = cam_Intrinsics c2"
    and "ev_FrameNumber e1 = ev_FrameNumber e2"
    and "cam_Transform c1 = cam_Transform c2"
    and "ev_Transform e1 = ev_Transform e2"
  shows "CalculateEventHash e1 = CalculateEventHash e2"
  using assms
  by (simp add: CalculateEventHash_def event_feed_def payload_feed_def hashCameraData_def)

theorem C8_camera_hash_ignores_image_bytes_witness:
  "ev_EventType (camera_event 1 [0]) = ''camera'' \<and> ev_EventType (camera_event 1 [255]) = ''camera''
   \<and> cam_ImageData (the (ev_CameraData (camera_event 1 [0]))) = [0]
   \<and> cam_ImageData (the (ev_CameraData (camera_event 1 [255]))) = [255]
   \<and> CalculateEventHash (camera_event 1 [0]) = CalculateEventHash (camera_event 1 [255])"
  using C8_camera_hash_ignores_image_bytes[of "camera_event 1 [0]" "camera_event 1 [255]"
      "the (ev_CameraData (camera_event 1 [0]))" "the (ev_CameraData (camera_event 1 [255]))"]
  by (simp add: camera_event_def)

text \<open>
  Claim C8 as stated fails: frames 1 and 2 below agree in width, height, format,
  image-data length and intrinsics (and in the image bytes), and their hashes differ,
  because the frame number is hashed.
\<close>

theorem C8_counterexample:
  "cam_Width (the (ev_CameraData (camera_event 1 [0]))) = cam_Width (the (ev_CameraData (camera_event 2 [0])))
   \<and> cam_Height (the (ev_CameraData (camera_event 1 [0]))) = cam_Height (the (ev_CameraData (camera_event 2 [0])))
   \<and> cam_Format (the (ev_CameraData (camera_event 1 [0]))) = cam_Format (the (ev_CameraData (camera_event 2 [0])))
   \<and> length (cam_ImageData (the (ev_CameraData (camera_event 1 [0]))))
       = length (cam_ImageData (the (ev_CameraData (camera_event 2 [0]))))
   \<and> cam_Intrinsics (the (ev_CameraData (camera_event 1 [0])))
       = cam_Intrinsics (the (ev_CameraData (camera_event 2 [0])))
   \<and> CalculateEventHash (camera_event 1 [0]) \<noteq> CalculateEventHash (camera_event 2 [0])"
  by (simp add: hash_camera_1 hash_camera_2) (simp add: camera_event_def)

subsection \<open>Which vertices reach the digest\<close>

lemma with_vertices_sel [simp]:
  "ev_EventType (with_vertices e m vs) = ''mesh''"
  "ev_MeshData (with_vertices e m vs) = Some (m\<lparr>mesh_Vertices := vs\<rparr>)"
  "ev_FrameNumber (with_vertices e m vs) = ev_FrameNumber e"
  "ev_Transform (with_vertices e m vs) = ev_Transform e"
  by (simp_all add: with_vertices_def)








subsection \<open>Keys of distinct entities\<close>

text \<open>
  Claim C9, as amended. Take a store whose anchor and version buckets are in key order,
  and ids that do not contain the separator \<open>:\<close>. The key encoding is injective: equal
  anchor keys mean equal (stag id, anchor id), equal version keys mean equal (stag id,
  anchor id, version id). For two anchors with different (stag id, anchor id), creating,
  updating or deleting the one, or adding a version to it, leaves what \<^verbatim>\<open>GetAnchor\<close> reads
  of the other as it was. For two stags with different ids, creating, updating or
  deleting the one, or updating its statistics, leaves what \<^verbatim>\<open>GetStag\<close> reads of the other
  as it was. This holds whatever entries the deleting cursors pass over.
\<close>

theorem C9_colon_free_ids_do_not_alias:
  assumes "colon_free g1" "colon_free g2"
    and "bucket_wf (AnchorsBucket s)" "bucket_wf (VersionsBucket s)"
  shows "(anchor_key g1 a1 = anchor_key g2 a2 \<longrightarrow> g1 = g2 \<and> a1 = a2)
       \<and> (colon_free a1 \<and> colon_free a2 \<and> version_key g1 a1 v1 = version_key g2 a2 v2
             \<longrightarrow> g1 = g2 \<and> a1 = a2 \<and> v1 = v2)
       \<and> (colon_free a1 \<and> colon_free a2 \<and> (g1, a1) \<noteq> (g2, a2)
            \<and> anc_StagID x = g1 \<and> anc_ID x = a1 \<longrightarrow>
              anchor_unaffected s g2 a2 (map_sum id fst (CreateAnchor env s x))
            \<and> anchor_unaffected s g2 a2 (map_sum id fst (UpdateAnchor env s x))
            \<and> anchor_unaffected s g2 a2 (AddAnchorVersion env s g1 a1 v)
            \<and> anchor_unaffected s g2 a2 (DeleteAnchor env passed s g1 a1))
       \<and> (g1 \<noteq> g2 \<and> stag_ID st = g1 \<longrightarrow>
              stag_unaffected s g2 (map_sum id fst (CreateStag env s st))
            \<and> stag_unaffected s g2 (map_sum id fst (UpdateStag env s st))
            \<and> stag_unaffected s g2 (UpdateStagStats env s g1 stats)
            \<and> stag_unaffected s g2 (DeleteStag env passed_anchors passed_versions s g1))"
proof (intro conjI impI)
  assume "anchor_key g1 a1 = anchor_key g2 a2"
  from anchor_key_inj[OF assms(1,2) this] show "g1 = g2" "a1 = a2" by simp_all
next
  assume h: "colon_free a1 \<and> colon_free a2 \<and> version_key g1 a1 v1 = version_key g2 a2 v2"
  then have "g1 = g2 \<and> a1 = a2 \<and> v1 = v2"
    using version_key_inj[OF assms(1,2), of a1 a2 v1 v2] by blast
  then show "g1 = g2" "a1 = a2" "v1 = v2" by simp_all
next
  assume h: "colon_free a1 \<and> colon_free a2 \<and> (g1, a1) \<noteq> (g2, a2)
            \<and> anc_StagID x = g1 \<and> anc_ID x = a1"
  then have a: "colon_free a1" "colon_free a2" "(g1, a1) \<noteq> (g2, a2)"
    "anc_StagID x = g1" "anc_ID x = a1" by simp_all
  note ops = anchor_ops_leave_other_anchor[OF assms(1,2) a(1,2,3) assms(4) a(4,5)]
  show "anchor_unaffected s g2 a2 (map_sum id fst (CreateAnchor env s x))" by (rule ops(1))
  show "anchor_unaffected s g2 a2 (map_sum id fst (UpdateAnchor env s x))" by (rule ops(2))
  show "anchor_unaffected s g2 a2 (AddAnchorVersion env s g1 a1 v)" by (rule ops(3))
  show "anchor_unaffected s g2 a2 (DeleteAnchor env passed s g1 a1)" by (rule ops(4))
next
  assume h: "g1 \<noteq> g2 \<and> stag_ID st = g1"
  then have b: "g1 \<noteq> g2" "stag_ID st = g1" by simp_all
  note ops = stag_ops_leave_other_stag[OF assms(1,2) b(1) assms(3,4) b(2)]
  show "stag_unaffected s g2 (map_sum id fst (CreateStag env s st))" by (rule ops(1))
  show "stag_unaffected s g2 (map_sum id fst (UpdateStag env s st))" by (rule ops(2))
  show "stag_unaffected s g2 (UpdateStagStats env s g1 stats)" by (rule ops(3))
  show "stag_unaffected s g2 (DeleteStag env passed_anchors passed_versions s g1)" by (rule ops(4))
qed

lemma store_S1_A_ops:
  "CreateAnchor (at_second 3) store_S1_A (anchor_record ''S1'' ''B'')
     = Inr (store_S1_A_B, (anchor_record ''S1'' ''B'')
                     \<lparr>anc_CreatedAt := 3000000000, anc_UpdatedAt := 3000000000\<rparr>)"
  "DeleteAnchor (at_second 4) [] store_S1_A_B ''S1'' ''B'' = Inr store_S1_A"
  "CreateStag (at_second 3) store_S1_A (fresh_stag (at_second 3) ''S2'')
     = Inr (store_S1_S2, (fresh_stag (at_second 3) ''S2'')
                   \<lparr>stag_CreatedAt := 3000000000, stag_UpdatedAt := 3000000000\<rparr>)"
  "DeleteStag (at_second 4) [] [] store_S1_S2 ''S2'' = Inr store_S1_A"
  by (simp_all add: CreateAnchor_def DeleteAnchor_def CreateStag_def DeleteStag_def db_Update_def
      bucket_Get_def bucket_Put_def bucket_Delete_def delete_scanned_def cursor_scan_def
      has_prefix_def anchor_key_def store_S1_A_def store_S1_A_B_def store_S1_S2_def
      anchor_record_def fresh_stag_def at_second_def Let_def)

text \<open>
  Witness: next to anchor \<open>A\<close> of stag \<open>S1\<close>, which has one version, anchor \<open>B\<close> is
  created and deleted; next to stag \<open>S1\<close>, stag \<open>S2\<close> is created and deleted.
\<close>

theorem C9_colon_free_ids_do_not_alias_witness:
  "colon_free ''S1'' \<and> colon_free ''S2'' \<and> colon_free ''A'' \<and> colon_free ''B''
   \<and> bucket_wf (AnchorsBucket store_S1_A) \<and> bucket_wf (VersionsBucket store_S1_A)
   \<and> bucket_wf (AnchorsBucket store_S1_A_B) \<and> bucket_wf (VersionsBucket store_S1_A_B)
   \<and> bucket_wf (AnchorsBucket store_S1_S2) \<and> bucket_wf (VersionsBucket store_S1_S2)
   \<and> length (anc_Versions (projr (GetAnchor store_S1_A ''S1'' ''A''))) = 1
   \<and> CreateAnchor (at_second 3) store_S1_A (anchor_record ''S1'' ''B'')
       = Inr (store_S1_A_B, (anchor_record ''S1'' ''B'')
                     \<lparr>anc_CreatedAt := 3000000000, anc_UpdatedAt := 3000000000\<rparr>)
   \<and> GetAnchor store_S1_A_B ''S1'' ''A'' = GetAnchor store_S1_A ''S1'' ''A''
   \<and> DeleteAnchor (at_second 4) [] store_S1_A_B ''S1'' ''B'' = Inr store_S1_A
   \<and> CreateStag (at_second 3) store_S1_A (fresh_stag (at_second 3) ''S2'')
       = Inr (store_S1_S2, (fresh_stag (at_second 3) ''S2'')
                   \<lparr>stag_CreatedAt := 3000000000, stag_UpdatedAt := 3000000000\<rparr>)
   \<and> GetStag store_S1_S2 ''S1'' = GetStag store_S1_A ''S1''
   \<and> DeleteStag (at_second 4) [] [] store_S1_S2 ''S2'' = Inr store_S1_A"
proof -
  have cf: "colon_free ''S1''" "colon_free ''S2''" "colon_free ''A''" "colon_free ''B''"
    by (simp_all add: colon_free_def)
  have wf: "bucket_wf (AnchorsBucket store_S1_A)" "bucket_wf (VersionsBucket store_S1_A)"
    "bucket_wf (AnchorsBucket store_S1_A_B)" "bucket_wf (VersionsBucket store_S1_A_B)"
    "bucket_wf (AnchorsBucket store_S1_S2)" "bucket_wf (VersionsBucket store_S1_S2)"
    by (simp_all add: bucket_wf_def store_S1_A_def store_S1_A_B_def store_S1_S2_def)
  have one: "length (anc_Versions (projr (GetAnchor store_S1_A ''S1'' ''A''))) = 1"
    by (simp add: GetAnchor_def GetAnchorVersions_def bucket_Get_def anchor_key_def cursor_scan_def
        has_prefix_def store_S1_A_def)
  have ids: "(''S1'', ''B'') \<noteq> (''S1'', ''A'')" "''S2'' \<noteq> ''S1''"
    "anc_StagID (anchor_record ''S1'' ''B'') = ''S1''" "anc_ID (anchor_record ''S1'' ''B'') = ''B''"
    "stag_ID (fresh_stag (at_second 3) ''S2'') = ''S2''"
    by (simp_all add: anchor_record_def fresh_stag_def)
  have "anchor_unaffected store_S1_A ''S1'' ''A''
          (map_sum id fst (CreateAnchor (at_second 3) store_S1_A (anchor_record ''S1'' ''B'')))"
    using C9_colon_free_ids_do_not_alias[OF cf(1) cf(1) wf(1,2)] cf ids by blast
  then have a: "GetAnchor store_S1_A_B ''S1'' ''A'' = GetAnchor store_S1_A ''S1'' ''A''"
    by (simp add: store_S1_A_ops anchor_unaffected_Inr)
  have "stag_unaffected store_S1_A ''S1''
          (map_sum id fst (CreateStag (at_second 3) store_S1_A (fresh_stag (at_second 3) ''S2'')))"
    using C9_colon_free_ids_do_not_alias[OF cf(2) cf(1) wf(1,2)] ids by blast
  then have b: "GetStag store_S1_S2 ''S1'' = GetStag store_S1_A ''S1''"
    by (simp add: store_S1_A_ops stag_unaffected_Inr)
  show ?thesis
    using cf wf one a b store_S1_A_ops by blast
qed

text \<open>
  Claim C9 as stated fails for ids that contain the separator: anchor \<open>c\<close> of stag
  \<open>a:b\<close> and anchor \<open>b:c\<close> of stag \<open>a\<close> share the key \<open>a:b:c\<close>. After the first is
  created, reading the second returns the first, creating the second is refused,
  updating the second overwrites the first, and deleting the second deletes the first.
  Stag \<open>a\<close> lists the anchor of stag \<open>a:b\<close> among its own, and deleting stag \<open>a\<close>
  deletes it.
\<close>

theorem C9_counterexample:
  "(''a:b'', ''c'') \<noteq> (''a'', ''b:c'') \<and> ''a:b'' \<noteq> ''a''
   \<and> anchor_key ''a:b'' ''c'' = anchor_key ''a'' ''b:c''
   \<and> isl (GetAnchor empty_Store ''a'' ''b:c'')
   \<and> CreateAnchor (at_second 1) empty_Store (anchor_record ''a:b'' ''c'')
       = Inr (store_ab_c, (anchor_record ''a:b'' ''c'')
                            \<lparr>anc_CreatedAt := 1000000000, anc_UpdatedAt := 1000000000\<rparr>)
   \<and> GetAnchor store_ab_c ''a'' ''b:c''
       = Inr ((anchor_record ''a:b'' ''c'')
                \<lparr>anc_CreatedAt := 1000000000, anc_UpdatedAt := 1000000000\<rparr>)
   \<and> CreateAnchor (at_second 2) store_ab_c (anchor_record ''a'' ''b:c'')
       = Inl ''anchor with ID b:c already exists in stag a''
   \<and> map (\<lambda>(k, a). (k, anc_StagID a, anc_ID a))
         (AnchorsBucket (fst (projr (UpdateAnchor (at_second 2) store_ab_c (anchor_record ''a'' ''b:c'')))))
       = [(''a:b:c'', ''a'', ''b:c'')]
   \<and> DeleteAnchor (at_second 2) [] store_ab_c ''a'' ''b:c'' = Inr empty_Store
   \<and> map fst (stag_Anchors (projr (GetStag
         (fst (projr (CreateStag (at_second 2) store_ab_c (fresh_stag (at_second 2) ''a'')))) ''a'')))
       = [''c'']
   \<and> DeleteStag (at_second 2) [] [] store_ab_c ''a'' = Inr empty_Store"
  by (simp add: anchor_key_def GetAnchor_def CreateAnchor_def UpdateAnchor_def DeleteAnchor_def
      DeleteStag_def CreateStag_def GetStag_def ListAnchors_def anchors_map_def
      GetAnchorVersions_def db_Update_def bucket_Get_def bucket_Put_def
      bucket_Delete_def delete_scanned_def cursor_scan_def has_prefix_def empty_Store_def
      store_ab_c_def anchor_record_def fresh_stag_def at_second_def Let_def)

end
